theory Spec2Isabelle
  imports Main "HOL-Library.Char_ord" "HOL-Library.List_Lexorder"
begin

section \<open>Data model of the http package\<close>

text \<open>
  Go strings and byte slices are byte sequences: both are \<open>char list\<close> here, and
  \<open>string(body)\<close> is the identity.  An \<open>error\<close> value is known by its message
  (\<open>errors.New\<close> builds one, \<open>Error()\<close> reads it); a nil error is \<open>None\<close>.  The
  errors of net/url keep their structure instead: \<open>url_Error op url err\<close> is
  \<open>&url.Error{Op, URL, Err}\<close>, \<open>url_InvalidPort p\<close> is
  \<open>fmt.Errorf("invalid port %q after host", p)\<close>; their messages are not rendered.
\<close>

type_synonym bytes = string

datatype error =
    errors_New (Error: string)
  | url_Error string string error
  | url_EscapeError string
  | url_InvalidHostError string
  | url_InvalidPort string

text \<open>
  \<open>http.Header\<close> is \<open>map[string][]string\<close>; \<open>None\<close> is the nil map.  The entries are
  kept as an association list with one entry per key.
\<close>

type_synonym http_Header = "(string \<times> string list) list option"

text \<open>
  A response body is an \<open>io.ReadCloser\<close>.  \<open>io.ReadAll\<close> returns the bytes read up to
  end of file or up to the first read error, together with that error (nil at end of file).
\<close>

record ReadCloser =
  delivered :: bytes
  read_err :: "error option"
  close_err :: "error option"

definition io_ReadAll :: "ReadCloser \<Rightarrow> bytes \<times> error option" where
  "io_ReadAll r = (delivered r, read_err r)"

record http_Response =
  StatusCode :: int
  Header :: http_Header
  Body :: ReadCloser

definition http_StatusOK :: int where
  "http_StatusOK = 200"

subsection \<open>strconv.Itoa\<close>

text \<open>The decimal form of an integer, with a minus sign for a negative one.\<close>

definition digit_char :: "nat \<Rightarrow> char" where
  "digit_char d = ''0123456789'' ! d"

fun decimal :: "nat \<Rightarrow> string" where
  "decimal n = (if n < 10 then [digit_char n] else decimal (n div 10) @ [digit_char (n mod 10)])"

definition strconv_Itoa :: "int \<Rightarrow> string" where
  "strconv_Itoa i = (if i < 0 then CHR ''-'' # decimal (nat (- i)) else decimal (nat i))"

section \<open>Response Parser: doParseResponse\<close>

text \<open>
  The result of every call is the tuple (status code, headers, body, error); a nil body
  is \<open>None\<close>.  The deferred \<open>Body.Close()\<close> and the \<open>log.Printf\<close> calls write to the log
  only and do not change the returned tuple; they are left out.
\<close>

type_synonym result = "int \<times> http_Header \<times> bytes option \<times> error option"

definition doParseResponse :: "http_Response option \<Rightarrow> error option \<Rightarrow> result" where
  "doParseResponse httpResponse err =
     (if err \<noteq> None \<and> httpResponse = None then (- 1, None, None, err)
      else
        (case httpResponse of
           None \<Rightarrow> (- 1, None, None, None)
         | Some r \<Rightarrow>
             (let code = StatusCode r; headers = Header r in
              if code \<noteq> http_StatusOK then
                (let (body, _) = io_ReadAll (Body r) in
                 (code, headers, None,
                  Some (errors_New (''remote error, url: code '' @ strconv_Itoa code
                                     @ '', response body: '' @ body))))
              else
                (let (body, err) = io_ReadAll (Body r) in
                 (case err of
                    Some e \<Rightarrow>
                      (code, headers, None,
                       Some (errors_New (''Couldn'' @ [CHR 0x27] @ ''t parse response body, err: ''
                                          @ Error e)))
                  | None \<Rightarrow> (code, headers, Some body, None))))))"

subsection \<open>Sample responses\<close>

definition resp404 :: http_Response where
  "resp404 = \<lparr>StatusCode = 404, Header = Some [(''Content-Type'', [''text/plain''])],
              Body = \<lparr>delivered = ''not found'', read_err = None, close_err = None\<rparr>\<rparr>"

definition resp201 :: http_Response where
  "resp201 = \<lparr>StatusCode = 201, Header = Some [(''Location'', [''/items/7''])],
              Body = \<lparr>delivered = ''created'', read_err = None, close_err = None\<rparr>\<rparr>"

definition resp200 :: http_Response where
  "resp200 = \<lparr>StatusCode = 200, Header = Some [(''Content-Type'', [''text/plain''])],
              Body = \<lparr>delivered = ''hello'', read_err = None, close_err = None\<rparr>\<rparr>"

definition resp200_broken :: http_Response where
  "resp200_broken = \<lparr>StatusCode = 200, Header = Some [],
              Body = \<lparr>delivered = ''hel'', read_err = Some (errors_New ''unexpected EOF''),
                      close_err = None\<rparr>\<rparr>"

section \<open>The net/url operations used by the URL resolver\<close>

text \<open>
  Modelled from the spec: \<open>resolveUrlWithParameter\<close> calls \<open>url.Parse\<close>, \<open>URL.Query\<close>,
  \<open>Values.Set\<close>, \<open>Values.Encode\<close> and \<open>URL.String\<close> of Go's standard package net/url,
  which is not part of the repository.  The spec (4.1) describes them: the input is parsed
  into scheme, host, path and query components, a bare host-like string being accepted
  with an empty scheme; the query is re-encoded with percent-encoding, keys in sorted
  order; the URL is re-serialized.  The definitions below follow the library's functions
  of the same names (Go 1.19 to 1.24), byte by byte.
\<close>

subsection \<open>Bytes and substrings\<close>

definition is_lower :: "char \<Rightarrow> bool" where
  "is_lower c = (c \<in> set ''abcdefghijklmnopqrstuvwxyz'')"

definition is_upper :: "char \<Rightarrow> bool" where
  "is_upper c = (c \<in> set ''ABCDEFGHIJKLMNOPQRSTUVWXYZ'')"

definition is_digit :: "char \<Rightarrow> bool" where
  "is_digit c = (c \<in> set ''0123456789'')"

definition ishex :: "char \<Rightarrow> bool" where
  "ishex c = (c \<in> set ''0123456789abcdefABCDEF'')"

definition unhex :: "char \<Rightarrow> nat" where
  "unhex c =
     (if is_digit c then of_char c - 48
      else if c \<in> set ''abcdef'' then of_char c - 97 + 10
      else if c \<in> set ''ABCDEF'' then of_char c - 65 + 10
      else 0)"

definition upperhex :: "nat \<Rightarrow> char" where
  "upperhex d = ''0123456789ABCDEF'' ! d"

text \<open>\<open>strings.Cut(s, sep)\<close> for a one-byte separator: the parts before and after its first
  occurrence; the whole of \<open>s\<close> and the empty string when it does not occur.\<close>

definition strings_Cut :: "string \<Rightarrow> char \<Rightarrow> string \<times> string" where
  "strings_Cut s sep = (takeWhile (\<lambda>c. c \<noteq> sep) s, drop 1 (dropWhile (\<lambda>c. c \<noteq> sep) s))"

definition strings_HasPrefix :: "string \<Rightarrow> string \<Rightarrow> bool" where
  "strings_HasPrefix s p = (take (length p) s = p)"

text \<open>\<open>strings.Index\<close> and \<open>strings.LastIndex\<close>; \<open>None\<close> stands for -1.\<close>

fun strings_Index :: "string \<Rightarrow> string \<Rightarrow> nat option" where
  "strings_Index [] p = (if p = [] then Some 0 else None)"
| "strings_Index (c # s) p =
     (if strings_HasPrefix (c # s) p then Some 0
      else map_option Suc (strings_Index s p))"

fun strings_LastIndexByte :: "string \<Rightarrow> char \<Rightarrow> nat option" where
  "strings_LastIndexByte [] b = None"
| "strings_LastIndexByte (c # s) b =
     (case strings_LastIndexByte s b of
        Some i \<Rightarrow> Some (Suc i)
      | None \<Rightarrow> if c = b then Some 0 else None)"

definition strings_ToLower :: "string \<Rightarrow> string" where
  "strings_ToLower s = map (\<lambda>c. if is_upper c then char_of (of_char c + (32::nat)) else c) s"

subsection \<open>Escaping\<close>

datatype encoding =
    encodePath | encodePathSegment | encodeHost | encodeZone
  | encodeUserPassword | encodeQueryComponent | encodeFragment

definition shouldEscape :: "char \<Rightarrow> encoding \<Rightarrow> bool" where
  "shouldEscape c mode =
     (if is_lower c \<or> is_upper c \<or> is_digit c then False
      else if (mode = encodeHost \<or> mode = encodeZone)
              \<and> c \<in> set (''!$&'' @ [CHR 0x27] @ ''()*+,;=:[]<>'' @ [CHR 0x22]) then False
      else if c \<in> set ''-_.~'' then False
      else if c \<in> set ''$&+,/:;=?@'' \<and> mode = encodePath then c = CHR ''?''
      else if c \<in> set ''$&+,/:;=?@'' \<and> mode = encodePathSegment then c \<in> set ''/;,?''
      else if c \<in> set ''$&+,/:;=?@'' \<and> mode = encodeUserPassword then c \<in> set ''@/?:''
      else if c \<in> set ''$&+,/:;=?@'' \<and> mode = encodeQueryComponent then True
      else if c \<in> set ''$&+,/:;=?@'' \<and> mode = encodeFragment then False
      else if mode = encodeFragment \<and> c \<in> set ''!()*'' then False
      else True)"

definition escape_byte :: "encoding \<Rightarrow> char \<Rightarrow> string" where
  "escape_byte mode c =
     (if shouldEscape c mode then
        (if c = CHR '' '' \<and> mode = encodeQueryComponent then ''+''
         else [CHR ''%'', upperhex (of_char c div 16), upperhex (of_char c mod 16)])
      else [c])"

definition escape :: "string \<Rightarrow> encoding \<Rightarrow> string" where
  "escape s mode = concat (map (escape_byte mode) s)"

definition QueryEscape :: "string \<Rightarrow> string" where
  "QueryEscape s = escape s encodeQueryComponent"

text \<open>
  \<open>unescape\<close> makes two passes in the source: the first checks every escape and every host
  byte and returns the first error, the second builds the result.  \<open>unescape_check\<close> is
  the first pass, \<open>unescape_build\<close> the second.
\<close>

fun unescape_check :: "string \<Rightarrow> encoding \<Rightarrow> error option" where
  "unescape_check [] mode = None"
| "unescape_check (c # s) mode =
     (if c = CHR ''%'' then
        (case s of
           h1 # h2 # rest \<Rightarrow>
             (if \<not> ishex h1 \<or> \<not> ishex h2 then Some (url_EscapeError (take 3 (c # s)))
              else if mode = encodeHost \<and> unhex h1 < 8 \<and> [c, h1, h2] \<noteq> ''%25''
                then Some (url_EscapeError [c, h1, h2])
              else if mode = encodeZone \<and> [c, h1, h2] \<noteq> ''%25''
                      \<and> char_of (16 * unhex h1 + unhex h2) \<noteq> CHR '' ''
                      \<and> shouldEscape (char_of (16 * unhex h1 + unhex h2)) encodeHost
                then Some (url_EscapeError [c, h1, h2])
              else unescape_check rest mode)
         | _ \<Rightarrow> Some (url_EscapeError (take 3 (c # s))))
      else if c \<noteq> CHR ''+'' \<and> (mode = encodeHost \<or> mode = encodeZone)
              \<and> (of_char c :: nat) < 128 \<and> shouldEscape c encodeHost
        then Some (url_InvalidHostError [c])
      else unescape_check s mode)"

fun unescape_build :: "string \<Rightarrow> encoding \<Rightarrow> string" where
  "unescape_build (c # h1 # h2 # rest) mode =
     (if c = CHR ''%'' then char_of (16 * unhex h1 + unhex h2) # unescape_build rest mode
      else (if c = CHR ''+'' \<and> mode = encodeQueryComponent then CHR '' '' else c)
           # unescape_build (h1 # h2 # rest) mode)"
| "unescape_build (c # s) mode =
     (if c = CHR ''+'' \<and> mode = encodeQueryComponent then CHR '' '' else c)
     # unescape_build s mode"
| "unescape_build [] mode = []"

definition unescape :: "string \<Rightarrow> encoding \<Rightarrow> error + string" where
  "unescape s mode =
     (case unescape_check s mode of
        Some e \<Rightarrow> Inl e
      | None \<Rightarrow> Inr (unescape_build s mode))"

definition QueryUnescape :: "string \<Rightarrow> error + string" where
  "QueryUnescape s = unescape s encodeQueryComponent"

subsection \<open>The URL structure and its parser\<close>

record url_Userinfo =
  username :: string
  password :: string
  passwordSet :: bool

record url_URL =
  Scheme :: string
  Opaque :: string
  User :: "url_Userinfo option"
  Host :: string
  Path :: string
  RawPath :: string
  OmitHost :: bool
  ForceQuery :: bool
  RawQuery :: string
  Fragment :: string
  RawFragment :: string

definition new_URL :: url_URL where
  "new_URL = \<lparr>Scheme = [], Opaque = [], User = None, Host = [], Path = [], RawPath = [],
              OmitHost = False, ForceQuery = False, RawQuery = [], Fragment = [],
              RawFragment = []\<rparr>"

definition stringContainsCTLByte :: "string \<Rightarrow> bool" where
  "stringContainsCTLByte s = (\<exists>b \<in> set s. (of_char b :: nat) < 32 \<or> b = CHR 0x7F)"

text \<open>\<open>getScheme\<close> scans for the colon that ends a scheme; \<open>i = 0\<close> is the first byte.\<close>

fun getScheme_from :: "bool \<Rightarrow> string \<Rightarrow> string \<Rightarrow> string \<Rightarrow> error + (string \<times> string)" where
  "getScheme_from first rawURL seen [] = Inr ([], rawURL)"
| "getScheme_from first rawURL seen (c # s) =
     (if is_lower c \<or> is_upper c then getScheme_from False rawURL (seen @ [c]) s
      else if is_digit c \<or> c \<in> set ''+-.'' then
        (if first then Inr ([], rawURL) else getScheme_from False rawURL (seen @ [c]) s)
      else if c = CHR '':'' then
        (if first then Inl (errors_New ''missing protocol scheme'') else Inr (seen, s))
      else Inr ([], rawURL))"

definition getScheme :: "string \<Rightarrow> error + (string \<times> string)" where
  "getScheme rawURL = getScheme_from True rawURL [] rawURL"

definition validOptionalPort :: "string \<Rightarrow> bool" where
  "validOptionalPort port =
     (case port of
        [] \<Rightarrow> True
      | c # ds \<Rightarrow> c = CHR '':'' \<and> (\<forall>b \<in> set ds. is_digit b))"

definition validUserinfo :: "string \<Rightarrow> bool" where
  "validUserinfo s =
     (\<forall>r \<in> set s. is_upper r \<or> is_lower r \<or> is_digit r
                    \<or> r \<in> set (''-._:~!$&'' @ [CHR 0x27] @ ''()*+,;=%@''))"

definition parseHost :: "string \<Rightarrow> error + string" where
  "parseHost host =
     (if strings_HasPrefix host ''['' then
        (case strings_LastIndexByte host CHR '']'' of
           None \<Rightarrow> Inl (errors_New (''missing '' @ [CHR 0x27] @ '']'' @ [CHR 0x27] @ '' in host''))
         | Some i \<Rightarrow>
             (if \<not> validOptionalPort (drop (i + 1) host)
                then Inl (url_InvalidPort (drop (i + 1) host))
              else
                (case strings_Index (take i host) ''%25'' of
                   Some zone \<Rightarrow>
                     (case unescape (take zone host) encodeHost of
                        Inl e \<Rightarrow> Inl e
                      | Inr host1 \<Rightarrow>
                          (case unescape (drop zone (take i host)) encodeZone of
                             Inl e \<Rightarrow> Inl e
                           | Inr host2 \<Rightarrow>
                               (case unescape (drop i host) encodeHost of
                                  Inl e \<Rightarrow> Inl e
                                | Inr host3 \<Rightarrow> Inr (host1 @ host2 @ host3))))
                 | None \<Rightarrow> unescape host encodeHost)))
      else
        (case strings_LastIndexByte host CHR '':'' of
           Some i \<Rightarrow>
             (if \<not> validOptionalPort (drop i host) then Inl (url_InvalidPort (drop i host))
              else unescape host encodeHost)
         | None \<Rightarrow> unescape host encodeHost))"

definition parseUserinfo :: "string \<Rightarrow> error + url_Userinfo" where
  "parseUserinfo userinfo =
     (if \<not> validUserinfo userinfo then Inl (errors_New ''net/url: invalid userinfo'')
      else if CHR '':'' \<notin> set userinfo then
        (case unescape userinfo encodeUserPassword of
           Inl e \<Rightarrow> Inl e
         | Inr u \<Rightarrow> Inr \<lparr>username = u, password = [], passwordSet = False\<rparr>)
      else
        (let (u0, p0) = strings_Cut userinfo CHR '':'' in
         case unescape u0 encodeUserPassword of
           Inl e \<Rightarrow> Inl e
         | Inr u \<Rightarrow>
             (case unescape p0 encodeUserPassword of
                Inl e \<Rightarrow> Inl e
              | Inr pw \<Rightarrow> Inr \<lparr>username = u, password = pw, passwordSet = True\<rparr>)))"

definition parseAuthority :: "string \<Rightarrow> error + (url_Userinfo option \<times> string)" where
  "parseAuthority authority =
     (case strings_LastIndexByte authority CHR ''@'' of
        None \<Rightarrow>
          (case parseHost authority of Inl e \<Rightarrow> Inl e | Inr host \<Rightarrow> Inr (None, host))
      | Some i \<Rightarrow>
          (case parseHost (drop (i + 1) authority) of
             Inl e \<Rightarrow> Inl e
           | Inr host \<Rightarrow>
               (case parseUserinfo (take i authority) of
                  Inl e \<Rightarrow> Inl e
                | Inr user \<Rightarrow> Inr (Some user, host))))"

definition setPath :: "url_URL \<Rightarrow> string \<Rightarrow> error + url_URL" where
  "setPath u p =
     (case unescape p encodePath of
        Inl e \<Rightarrow> Inl e
      | Inr path \<Rightarrow>
          Inr (u\<lparr>Path := path, RawPath := (if p = escape path encodePath then [] else p)\<rparr>))"

definition setFragment :: "url_URL \<Rightarrow> string \<Rightarrow> error + url_URL" where
  "setFragment u f =
     (case unescape f encodeFragment of
        Inl e \<Rightarrow> Inl e
      | Inr frag \<Rightarrow>
          Inr (u\<lparr>Fragment := frag,
                RawFragment := (if f = escape frag encodeFragment then [] else f)\<rparr>))"

text \<open>\<open>parse(rawURL, viaRequest)\<close> with \<open>viaRequest = false\<close>, as \<open>url.Parse\<close> calls it.\<close>

definition parse_authority_path :: "url_URL \<Rightarrow> string \<Rightarrow> error + url_URL" where
  "parse_authority_path u rest =
     (if strings_HasPrefix rest ''//'' \<and> (Scheme u \<noteq> [] \<or> \<not> strings_HasPrefix rest ''///'') then
        (let authority0 = drop 2 rest;
             (authority, rest') =
               (case strings_Index authority0 ''/'' of
                  Some i \<Rightarrow> (take i authority0, drop i authority0)
                | None \<Rightarrow> (authority0, []))
         in case parseAuthority authority of
              Inl e \<Rightarrow> Inl e
            | Inr (user, host) \<Rightarrow> setPath (u\<lparr>User := user, Host := host\<rparr>) rest')
      else if Scheme u \<noteq> [] \<and> strings_HasPrefix rest ''/'' then
        setPath (u\<lparr>OmitHost := True\<rparr>) rest
      else setPath u rest)"

definition parse :: "string \<Rightarrow> error + url_URL" where
  "parse rawURL =
     (if stringContainsCTLByte rawURL
        then Inl (errors_New ''net/url: invalid control character in URL'')
      else if rawURL = ''*'' then Inr (new_URL\<lparr>Path := ''*''\<rparr>)
      else
        (case getScheme rawURL of
           Inl e \<Rightarrow> Inl e
         | Inr (scheme, rest0) \<Rightarrow>
             (let u = new_URL\<lparr>Scheme := strings_ToLower scheme\<rparr>;
                  (rest, u) =
                    (if rest0 \<noteq> [] \<and> last rest0 = CHR ''?'' \<and> count_list rest0 CHR ''?'' = 1
                       then (butlast rest0, u\<lparr>ForceQuery := True\<rparr>)
                     else (fst (strings_Cut rest0 CHR ''?''),
                           u\<lparr>RawQuery := snd (strings_Cut rest0 CHR ''?'')\<rparr>))
              in if \<not> strings_HasPrefix rest ''/'' \<and> Scheme u \<noteq> [] then Inr (u\<lparr>Opaque := rest\<rparr>)
                 else if \<not> strings_HasPrefix rest ''/''
                         \<and> CHR '':'' \<in> set (fst (strings_Cut rest CHR ''/''))
                   then Inl (errors_New ''first path segment in URL cannot contain colon'')
                 else parse_authority_path u rest)))"

definition url_Parse :: "string \<Rightarrow> error + url_URL" where
  "url_Parse rawURL =
     (let (u, frag) = strings_Cut rawURL CHR ''#'' in
      case parse u of
        Inl e \<Rightarrow> Inl (url_Error ''parse'' u e)
      | Inr url \<Rightarrow>
          (if frag = [] then Inr url
           else (case setFragment url frag of
                   Inl e \<Rightarrow> Inl (url_Error ''parse'' rawURL e)
                 | Inr url' \<Rightarrow> Inr url')))"

subsection \<open>Serializing a URL\<close>

definition validEncoded :: "string \<Rightarrow> encoding \<Rightarrow> bool" where
  "validEncoded s mode =
     (\<forall>c \<in> set s. c \<in> set (''!$&'' @ [CHR 0x27] @ ''()*+,;=:@[]%'') \<or> \<not> shouldEscape c mode)"

definition EscapedPath :: "url_URL \<Rightarrow> string" where
  "EscapedPath u =
     (if RawPath u \<noteq> [] \<and> validEncoded (RawPath u) encodePath
         \<and> unescape (RawPath u) encodePath = Inr (Path u) then RawPath u
      else if Path u = ''*'' then ''*''
      else escape (Path u) encodePath)"

definition EscapedFragment :: "url_URL \<Rightarrow> string" where
  "EscapedFragment u =
     (if RawFragment u \<noteq> [] \<and> validEncoded (RawFragment u) encodeFragment
         \<and> unescape (RawFragment u) encodeFragment = Inr (Fragment u) then RawFragment u
      else escape (Fragment u) encodeFragment)"

definition Userinfo_String :: "url_Userinfo \<Rightarrow> string" where
  "Userinfo_String ui =
     escape (username ui) encodeUserPassword
     @ (if passwordSet ui then '':'' @ escape (password ui) encodeUserPassword else [])"

text \<open>The part of \<open>URL.String\<close> written for a URL without \<open>Opaque\<close>, before the query.\<close>

definition String_hier :: "url_URL \<Rightarrow> string" where
  "String_hier u =
     (let buf = (if Scheme u \<noteq> [] then Scheme u @ '':'' else []);
          buf = buf @
            (if Scheme u \<noteq> [] \<or> Host u \<noteq> [] \<or> User u \<noteq> None then
               (if OmitHost u \<and> Host u = [] \<and> User u = None then []
                else
                  (if Host u \<noteq> [] \<or> Path u \<noteq> [] \<or> User u \<noteq> None then ''//'' else [])
                  @ (case User u of Some ui \<Rightarrow> Userinfo_String ui @ ''@'' | None \<Rightarrow> [])
                  @ (if Host u \<noteq> [] then escape (Host u) encodeHost else []))
             else []);
          path = EscapedPath u;
          buf = buf @ (if path \<noteq> [] \<and> hd path \<noteq> CHR ''/'' \<and> Host u \<noteq> [] then ''/'' else []);
          buf = buf @ (if buf = [] \<and> CHR '':'' \<in> set (fst (strings_Cut path CHR ''/''))
                       then ''./'' else [])
      in buf @ path)"

definition String :: "url_URL \<Rightarrow> string" where
  "String u =
     (if Opaque u \<noteq> [] then (if Scheme u \<noteq> [] then Scheme u @ '':'' else []) @ Opaque u
      else String_hier u)
     @ (if ForceQuery u \<or> RawQuery u \<noteq> [] then ''?'' @ RawQuery u else [])
     @ (if Fragment u \<noteq> [] then ''#'' @ EscapedFragment u else [])"

subsection \<open>Query values\<close>

text \<open>
  \<open>url.Values\<close> is \<open>map[string][]string\<close>: an association list with one entry per key.
  \<open>Values_lookup\<close> is the map read \<open>v[key]\<close> (nil, the empty list, for an absent key).
\<close>

type_synonym url_Values = "(string \<times> string list) list"

definition Values_lookup :: "url_Values \<Rightarrow> string \<Rightarrow> string list" where
  "Values_lookup v key = (case map_of v key of None \<Rightarrow> [] | Some vs \<Rightarrow> vs)"

fun Values_store :: "url_Values \<Rightarrow> string \<Rightarrow> string list \<Rightarrow> url_Values" where
  "Values_store [] key vs = [(key, vs)]"
| "Values_store ((k, ws) # v) key vs =
     (if k = key then (k, vs) # v else (k, ws) # Values_store v key vs)"

definition Values_Set :: "url_Values \<Rightarrow> string \<Rightarrow> string \<Rightarrow> url_Values" where
  "Values_Set v key val = Values_store v key [val]"

text \<open>
  \<open>parseQuery\<close>: the loop over the \<open>&\<close>-separated pairs.  A pair with a semicolon or with
  a malformed escape is skipped; the error it records is dropped by \<open>URL.Query\<close>.
\<close>

function parseQuery :: "url_Values \<Rightarrow> string \<Rightarrow> url_Values" where
  "parseQuery m query =
     (if query = [] then m
      else
        (let (key, query') = strings_Cut query CHR ''&'' in
         if CHR '';'' \<in> set key then parseQuery m query'
         else if key = [] then parseQuery m query'
         else
           (let (key0, value0) = strings_Cut key CHR ''='' in
            case QueryUnescape key0 of
              Inl err1 \<Rightarrow> parseQuery m query'
            | Inr key1 \<Rightarrow>
                (case QueryUnescape value0 of
                   Inl err1 \<Rightarrow> parseQuery m query'
                 | Inr val \<Rightarrow>
                     parseQuery (Values_store m key1 (Values_lookup m key1 @ [val])) query'))))"
  by pat_completeness auto
termination
proof -
  have shorter: "length (snd (strings_Cut query sep)) < length query"
    if ne: "query \<noteq> []" for query :: string and sep
  proof -
    have le: "length (dropWhile (\<lambda>c. c \<noteq> sep) query) \<le> length query"
      by (rule length_dropWhile_le)
    show ?thesis
    proof (cases "dropWhile (\<lambda>c. c \<noteq> sep) query")
      case Nil
      have "snd (strings_Cut query sep) = []"
        unfolding strings_Cut_def snd_conv Nil by simp
      with ne show ?thesis by simp
    next
      case (Cons c cs)
      have "snd (strings_Cut query sep) = cs"
        unfolding strings_Cut_def snd_conv Cons by simp
      with le Cons show ?thesis by simp
    qed
  qed
  show ?thesis
  proof (relation "measure (\<lambda>(m, query). length query)")
    show "wf (measure (\<lambda>(m, query). length query))" by simp
  qed (use shorter in \<open>auto simp: strings_Cut_def\<close>)
qed

definition Query :: "url_URL \<Rightarrow> url_Values" where
  "Query u = parseQuery [] (RawQuery u)"

fun join_amp :: "string list \<Rightarrow> string" where
  "join_amp [] = []"
| "join_amp [p] = p"
| "join_amp (p # q # ps) = p @ ''&'' @ join_amp (q # ps)"

text \<open>\<open>Encode\<close> writes \<open>key=value\<close> for every value of every key, keys in sorted order.\<close>

definition Encode_pairs :: "url_Values \<Rightarrow> (string \<times> string) list" where
  "Encode_pairs v = concat (map (\<lambda>k. map (\<lambda>x. (k, x)) (Values_lookup v k)) (sort (map fst v)))"

definition encode_pair :: "string \<times> string \<Rightarrow> string" where
  "encode_pair p = QueryEscape (fst p) @ ''='' @ QueryEscape (snd p)"

definition Encode :: "url_Values \<Rightarrow> string" where
  "Encode v = join_amp (map encode_pair (Encode_pairs v))"

section \<open>URL Resolver: resolveUrlWithParameter\<close>

text \<open>
  The \<open>parameters\<close> map is given as the list of its entries in the order the \<open>range\<close> loop
  visits them (Go leaves that order open); a nil map is the empty list.
\<close>

definition resolveUrlWithParameter :: "string \<Rightarrow> (string \<times> string) list \<Rightarrow> error + string" where
  "resolveUrlWithParameter urlString parameters =
     (case url_Parse urlString of
        Inl err \<Rightarrow> Inl err
      | Inr url \<Rightarrow>
          (let queryValue = Query url;
               queryValue = fold (\<lambda>(key, val) q. Values_Set q key val) parameters queryValue;
               url = url\<lparr>RawQuery := Encode queryValue\<rparr>
           in Inr (String url)))"

section \<open>Requests, hooks and the shared client\<close>

datatype RequestMethodType = POST | GET | PATCH | PUT | DELETE

fun method_string :: "RequestMethodType \<Rightarrow> string" where
  "method_string POST = ''POST''"
| "method_string GET = ''GET''"
| "method_string PATCH = ''PATCH''"
| "method_string PUT = ''PUT''"
| "method_string DELETE = ''DELETE''"

text \<open>
  \<open>*http.Request\<close>, with the fields that \<open>http.NewRequest\<close> fills from its arguments.
  \<open>ReqBody = None\<close> is a nil \<open>Body\<close>; \<open>Some bs\<close> is a body that yields the bytes \<open>bs\<close>
  (for empty \<open>bs\<close> the library stores \<open>http.NoBody\<close>).
\<close>

record http_Request =
  Method :: string
  URL :: url_URL
  ReqHeader :: http_Header
  ReqBody :: "bytes option"
  ContentLength :: nat
  ReqHost :: string

text \<open>\<open>removeEmptyPort\<close> strips a colon that ends the host (an empty port).\<close>

definition removeEmptyPort :: "string \<Rightarrow> string" where
  "removeEmptyPort host = (if host \<noteq> [] \<and> last host = CHR '':'' then butlast host else host)"

text \<open>
  Modelled from the spec: \<open>http.NewRequest(method, url, body)\<close> of the standard library, for
  the five method names above (all valid) and a body that is nil or a \<open>*strings.Reader\<close>.
  It parses the URL again and fails when that fails (the spec's BuildError).
\<close>

definition http_NewRequest :: "string \<Rightarrow> string \<Rightarrow> bytes option \<Rightarrow> error + http_Request" where
  "http_NewRequest method url body =
     (case url_Parse url of
        Inl err \<Rightarrow> Inl err
      | Inr u \<Rightarrow>
          Inr \<lparr>Method = method, URL = u\<lparr>Host := removeEmptyPort (Host u)\<rparr>,
               ReqHeader = Some [], ReqBody = body,
               ContentLength = (case body of None \<Rightarrow> 0 | Some bs \<Rightarrow> length bs),
               ReqHost = removeEmptyPort (Host u)\<rparr>)"

subsection \<open>Header Adapter: mapHeader2netHeader\<close>

text \<open>
  Modelled from the spec: \<open>Header.Set\<close> of net/http, which the adapter calls for every
  entry, stores the one value under the canonical form of the key
  (\<open>textproto.CanonicalMIMEHeaderKey\<close>: a key made of header field bytes gets an upper
  case letter at the start and after each dash and lower case elsewhere; any other key is
  kept).  The map is given as the list of its entries in the order the loop visits them.
\<close>

definition validHeaderFieldByte :: "char \<Rightarrow> bool" where
  "validHeaderFieldByte c =
     (is_lower c \<or> is_upper c \<or> is_digit c
      \<or> c \<in> set (''!#$%&'' @ [CHR 0x27] @ ''*+-.^_`|~''))"

fun canonical_from :: "bool \<Rightarrow> string \<Rightarrow> string" where
  "canonical_from upper [] = []"
| "canonical_from upper (c # s) =
     (let c' = (if upper \<and> is_lower c then char_of (of_char c - (32::nat))
                else if \<not> upper \<and> is_upper c then char_of (of_char c + (32::nat))
                else c)
      in c' # canonical_from (c' = CHR ''-'') s)"

definition CanonicalMIMEHeaderKey :: "string \<Rightarrow> string" where
  "CanonicalMIMEHeaderKey s =
     (if \<forall>c \<in> set s. validHeaderFieldByte c then canonical_from True s else s)"

definition Header_Set :: "(string \<times> string list) list \<Rightarrow> string \<Rightarrow> string \<Rightarrow> (string \<times> string list) list" where
  "Header_Set h key val = Values_store h (CanonicalMIMEHeaderKey key) [val]"

definition mapHeader2netHeader :: "(string \<times> string) list option \<Rightarrow> http_Header" where
  "mapHeader2netHeader header =
     (case header of
        None \<Rightarrow> Some []
      | Some kvs \<Rightarrow> Some (fold (\<lambda>(k, v) netHeader. Header_Set netHeader k v) kvs []))"

subsection \<open>Call context and hooks\<close>

text \<open>
  A \<open>context.Context\<close> is the background context or a context with one more value
  attached.  A hook is a pair of callbacks.  Both may have effects: they run on an explicit
  world state \<open>'w\<close>, and \<open>Before\<close>, which receives the request by pointer, returns the
  request as it leaves it.  \<open>After\<close> receives the headers and the body by reference; a
  callback that changes them in place, that panics or that does not return is outside the
  model.  The registry and the shared client are the package's two global variables; a call
  reads them once (hooks that register hooks or replace the client while a call is running
  are not modelled).
\<close>

datatype 'v Context = Background | WithValue "'v Context" string 'v

record ('v, 'w) Hook =
  Before :: "'v Context \<Rightarrow> http_Request \<Rightarrow> 'w
               \<Rightarrow> ('v Context \<times> error option) \<times> http_Request \<times> 'w"
  After :: "'v Context \<Rightarrow> int \<Rightarrow> http_Header \<Rightarrow> bytes option \<Rightarrow> error option \<Rightarrow> 'w
               \<Rightarrow> ('v Context \<times> error option) \<times> 'w"

record ('v, 'w) globals =
  globalHttpHook :: "('v, 'w) Hook list"
  httpClient :: "http_Request \<Rightarrow> 'w \<Rightarrow> (http_Response option \<times> error option) \<times> 'w"

definition AddHook :: "('v, 'w) Hook \<Rightarrow> ('v, 'w) globals \<Rightarrow> ('v, 'w) globals" where
  "AddHook httpHook g = g\<lparr>globalHttpHook := globalHttpHook g @ [httpHook]\<rparr>"

definition SetHTTPClient ::
  "(http_Request \<Rightarrow> 'w \<Rightarrow> (http_Response option \<times> error option) \<times> 'w)
   \<Rightarrow> ('v, 'w) globals \<Rightarrow> ('v, 'w) globals" where
  "SetHTTPClient client g = g\<lparr>httpClient := client\<rparr>"

text \<open>
  What a call did is recorded in order: the request handed to \<open>do\<close>, each \<open>Before\<close> call
  (index of the hook in the registry, error returned), the \<open>httpClient.Do\<close> call (request
  sent, error returned), the \<open>doParseResponse\<close> call, and each \<open>After\<close> call (index,
  the status code, headers, body and error it received, error returned).
\<close>

datatype event =
    EvDo http_Request
  | EvBefore nat "error option"
  | EvTransport http_Request "error option"
  | EvParse
  | EvAfter nat int http_Header "bytes option" "error option" "error option"

section \<open>Dispatcher: do\<close>

fun before_loop ::
  "('v, 'w) Hook list \<Rightarrow> nat \<Rightarrow> 'v Context \<Rightarrow> http_Request \<Rightarrow> 'w \<Rightarrow> event list
   \<Rightarrow> error option \<times> 'v Context \<times> http_Request \<times> 'w \<times> event list" where
  "before_loop [] i ctx req w tr = (None, ctx, req, w, tr)"
| "before_loop (hook # hooks) i ctx req w tr =
     (case Before hook ctx req w of
        ((ctx', err), req', w') \<Rightarrow>
          (case err of
             Some e \<Rightarrow> (Some e, ctx', req', w', tr @ [EvBefore i err])
           | None \<Rightarrow> before_loop hooks (Suc i) ctx' req' w' (tr @ [EvBefore i err])))"

fun after_loop ::
  "('v, 'w) Hook list \<Rightarrow> nat \<Rightarrow> 'v Context \<Rightarrow> int \<Rightarrow> http_Header \<Rightarrow> bytes option
   \<Rightarrow> error option \<Rightarrow> 'w \<Rightarrow> event list
   \<Rightarrow> error option \<times> 'v Context \<times> 'w \<times> event list" where
  "after_loop [] i ctx rspCode rspHead rspData err w tr = (None, ctx, w, tr)"
| "after_loop (hook # hooks) i ctx rspCode rspHead rspData err w tr =
     (case After hook ctx rspCode rspHead rspData err w of
        ((ctx', err'), w') \<Rightarrow>
          (case err' of
             Some e \<Rightarrow> (Some e, ctx', w', tr @ [EvAfter i rspCode rspHead rspData err err'])
           | None \<Rightarrow>
               after_loop hooks (Suc i) ctx' rspCode rspHead rspData err w'
                 (tr @ [EvAfter i rspCode rspHead rspData err err'])))"

text \<open>
  \<open>do\<close> returns the tuple of the call, the world it leaves and the record of the call.
  In the \<open>After\<close> loop the \<open>err\<close> declared in the loop body shadows the parser's
  \<open>err\<close>: every callback receives the parser's error, and a call in which every callback
  returns nil returns the parser's tuple.
\<close>

definition do ::
  "('v, 'w) globals \<Rightarrow> 'v Context \<Rightarrow> http_Request \<Rightarrow> 'w \<Rightarrow> result \<times> 'w \<times> event list" where
  "do g ctx httpRequest w =
     (case before_loop (globalHttpHook g) 0 ctx httpRequest w [EvDo httpRequest] of
        (Some e, ctx1, req1, w1, tr1) \<Rightarrow> ((- 1, None, None, Some e), w1, tr1)
      | (None, ctx1, req1, w1, tr1) \<Rightarrow>
          (case httpClient g req1 w1 of
             ((resp, err), w2) \<Rightarrow>
               (case err of
                  Some e \<Rightarrow> ((- 1, None, None, Some e), w2, tr1 @ [EvTransport req1 err])
                | None \<Rightarrow>
                    (case doParseResponse resp err of
                       (rspCode, rspHead, rspData, err') \<Rightarrow>
                         (case after_loop (globalHttpHook g) 0 ctx1 rspCode rspHead rspData err' w2
                                 (tr1 @ [EvTransport req1 err, EvParse]) of
                            (Some e, ctx3, w3, tr3) \<Rightarrow> ((- 1, None, None, Some e), w3, tr3)
                          | (None, ctx3, w3, tr3) \<Rightarrow>
                              ((rspCode, rspHead, rspData, err'), w3, tr3))))))"

section \<open>Request Builder and public operations: send\<close>

text \<open>
  The body argument has Go's type \<open>any\<close>: \<open>None\<close> is nil.  \<open>json.Marshal\<close> belongs to the
  standard library and is a parameter of the model: it returns the encoding or an error.
  \<open>bytes, _ := json.Marshal(body)\<close> leaves \<open>bytes\<close> nil on an error, and the payload is
  the string of those bytes.
\<close>

definition send ::
  "('b option \<Rightarrow> error + bytes) \<Rightarrow> ('v, 'w) globals \<Rightarrow> 'v Context \<Rightarrow> RequestMethodType
   \<Rightarrow> string \<Rightarrow> (string \<times> string) list option \<Rightarrow> (string \<times> string) list \<Rightarrow> 'b option \<Rightarrow> 'w
   \<Rightarrow> result \<times> 'w \<times> event list" where
  "send json_Marshal g ctx method url header parameter body w =
     (case resolveUrlWithParameter url parameter of
        Inl err \<Rightarrow> ((0, None, None, Some err), w, [])
      | Inr url' \<Rightarrow>
          (case (if method = POST \<or> method = PUT \<or> method = PATCH then
                   (let bytes = (case json_Marshal body of Inl _ \<Rightarrow> [] | Inr bs \<Rightarrow> bs);
                        payload = bytes
                    in http_NewRequest (method_string method) url' (Some payload))
                 else http_NewRequest (method_string method) url' None) of
             Inl err \<Rightarrow> ((- 1, None, None, Some err), w, [])
           | Inr httpRequest \<Rightarrow>
               do g ctx
                  (if header \<noteq> None then httpRequest\<lparr>ReqHeader := mapHeader2netHeader header\<rparr>
                   else httpRequest)
                  w))"

definition GetWithContext where
  "GetWithContext json_Marshal g ctx url header parameter w =
     send json_Marshal g ctx GET url header parameter None w"

definition Get where
  "Get json_Marshal g url header parameter w =
     GetWithContext json_Marshal g Background url header parameter w"

definition PostWithContext where
  "PostWithContext json_Marshal g ctx url header parameter body w =
     send json_Marshal g ctx POST url header parameter body w"

definition Post where
  "Post json_Marshal g url header parameter body w =
     PostWithContext json_Marshal g Background url header parameter body w"

definition PatchWithContext where
  "PatchWithContext json_Marshal g ctx url header parameter body w =
     send json_Marshal g ctx PATCH url header parameter body w"

definition Patch where
  "Patch json_Marshal g url header parameter body w =
     PatchWithContext json_Marshal g Background url header parameter body w"

definition PutWithContext where
  "PutWithContext json_Marshal g ctx url header parameter body w =
     send json_Marshal g ctx PUT url header parameter body w"

definition Put where
  "Put json_Marshal g url header parameter body w =
     PutWithContext json_Marshal g Background url header parameter body w"

definition DeleteWithContext where
  "DeleteWithContext json_Marshal g ctx url header parameter body w =
     send json_Marshal g ctx DELETE url header parameter body w"

definition Delete where
  "Delete json_Marshal g url header parameter w =
     DeleteWithContext json_Marshal g Background url header parameter None w"

subsection \<open>Sample hooks, clients and requests\<close>

text \<open>
  The world of the samples counts the calls of the stub transport and of the \<open>After\<close>
  callbacks.  \<open>timeHook\<close> follows the test fixture \<open>TimeHook\<close>: \<open>Before\<close> attaches a value
  to the context, \<open>After\<close> reports and returns no error.
\<close>

record stub_world =
  transport_calls :: nat
  after_calls :: nat

definition w0 :: stub_world where
  "w0 = \<lparr>transport_calls = 0, after_calls = 0\<rparr>"

definition timeHook :: "(nat, stub_world) Hook" where
  "timeHook =
     \<lparr>Before = (\<lambda>ctx req w. ((WithValue ctx ''time-hook-count-key'' 0, None), req, w)),
      After = (\<lambda>ctx respCode respHeader respData err w.
                 ((ctx, None), w\<lparr>after_calls := Suc (after_calls w)\<rparr>))\<rparr>"

definition denyHook :: "(nat, stub_world) Hook" where
  "denyHook =
     \<lparr>Before = (\<lambda>ctx req w. ((ctx, Some (errors_New ''denied'')), req, w)),
      After = (\<lambda>ctx respCode respHeader respData err w.
                 ((ctx, None), w\<lparr>after_calls := Suc (after_calls w)\<rparr>))\<rparr>"

definition auditHook :: "(nat, stub_world) Hook" where
  "auditHook =
     \<lparr>Before = (\<lambda>ctx req w. ((ctx, None), req, w)),
      After = (\<lambda>ctx respCode respHeader respData err w.
                 ((ctx, Some (errors_New ''audit failed'')),
                  w\<lparr>after_calls := Suc (after_calls w)\<rparr>))\<rparr>"

definition okClient :: "http_Request \<Rightarrow> stub_world \<Rightarrow> (http_Response option \<times> error option) \<times> stub_world" where
  "okClient req w = ((Some resp200, None), w\<lparr>transport_calls := Suc (transport_calls w)\<rparr>)"

definition downClient :: "http_Request \<Rightarrow> stub_world \<Rightarrow> (http_Response option \<times> error option) \<times> stub_world" where
  "downClient req w =
     ((None, Some (errors_New ''connection refused'')),
      w\<lparr>transport_calls := Suc (transport_calls w)\<rparr>)"

definition g_down :: "(nat, stub_world) globals" where
  "g_down = \<lparr>globalHttpHook = [timeHook], httpClient = downClient\<rparr>"

definition g_deny :: "(nat, stub_world) globals" where
  "g_deny = \<lparr>globalHttpHook = [timeHook, denyHook, timeHook], httpClient = okClient\<rparr>"

definition g_audit :: "(nat, stub_world) globals" where
  "g_audit = \<lparr>globalHttpHook = [timeHook, auditHook, timeHook], httpClient = okClient\<rparr>"

definition req0 :: http_Request where
  "req0 = \<lparr>Method = ''GET'', URL = new_URL\<lparr>Scheme := ''http'', Host := ''h:8080''\<rparr>,
           ReqHeader = Some [], ReqBody = None, ContentLength = 0, ReqHost = ''h:8080''\<rparr>"

text \<open>
  A sample body type with a value that cannot be encoded (\<open>json.Marshal\<close> of a channel
  fails with an \<open>UnsupportedTypeError\<close>), and the sample encoder for it.
\<close>

datatype sample_body = Num int | Chan

fun sample_Marshal :: "sample_body option \<Rightarrow> error + bytes" where
  "sample_Marshal None = Inr ''null''"
| "sample_Marshal (Some (Num i)) = Inr (strconv_Itoa i)"
| "sample_Marshal (Some Chan) = Inl (errors_New ''json: unsupported type: chan int'')"

definition g_ok :: "(nat, stub_world) globals" where
  "g_ok = \<lparr>globalHttpHook = [timeHook], httpClient = okClient\<rparr>"

definition req_get :: http_Request where
  "req_get = \<lparr>Method = ''GET'',
              URL = new_URL\<lparr>Scheme := ''http'', Host := ''h:8080'', RawQuery := ''a=1''\<rparr>,
              ReqHeader = Some [(''Content-Type'', [''application/json''])],
              ReqBody = None, ContentLength = 0, ReqHost = ''h:8080''\<rparr>"

definition req_post :: "bytes \<Rightarrow> http_Request" where
  "req_post payload = \<lparr>Method = ''POST'',
              URL = new_URL\<lparr>Scheme := ''http'', Host := ''h:8080'', RawQuery := ''a=1''\<rparr>,
              ReqHeader = Some [], ReqBody = Some payload, ContentLength = length payload,
              ReqHost = ''h:8080''\<rparr>"

text \<open>The golden parameter value \<open>{"a":1}\<close>, and a URL whose query repeats a key.\<close>

definition json_a1 :: string where
  "json_a1 = ''{'' @ [CHR 0x22] @ ''a'' @ [CHR 0x22] @ '':1}''"

definition url_repeated :: url_URL where
  "url_repeated = new_URL\<lparr>Scheme := ''http'', Host := ''h:8080'', RawQuery := ''a=1&a=2&b=3''\<rparr>"

section \<open>Theorems about the Response Parser\<close>

lemma decimal_nonempty: "decimal n \<noteq> []"
  by (subst decimal.simps) simp

text \<open>
  Claim C4.  For a received response (a non-nil \<open>*http.Response\<close>) whose status code is not
  200, whatever the error argument, the parser returns that status code, the response's
  headers, a nil body and a non-nil error whose message is
  \<open>remote error, url: code <decimal status code>, response body: <bytes read from the body>\<close>.
  Codes such as 201 and 204 take this branch.
\<close>

theorem doParseResponse_non200:
  "StatusCode r \<noteq> 200 \<Longrightarrow>
   doParseResponse (Some r) err =
     (StatusCode r, Header r, None,
      Some (errors_New (''remote error, url: code '' @ strconv_Itoa (StatusCode r)
                         @ '', response body: '' @ fst (io_ReadAll (Body r)))))"
  by (simp add: doParseResponse_def http_StatusOK_def Let_def split: prod.splits)

theorem doParseResponse_non200_witness:
  "StatusCode resp404 \<noteq> 200 \<and> StatusCode resp201 \<noteq> 200 \<and>
   doParseResponse (Some resp404) None =
     (404, Some [(''Content-Type'', [''text/plain''])], None,
      Some (errors_New ''remote error, url: code 404, response body: not found'')) \<and>
   doParseResponse (Some resp201) None =
     (201, Some [(''Location'', [''/items/7''])], None,
      Some (errors_New ''remote error, url: code 201, response body: created''))"
  using doParseResponse_non200 [of resp404 None] doParseResponse_non200 [of resp201 None]
  by (simp add: resp404_def resp201_def io_ReadAll_def strconv_Itoa_def digit_char_def)

text \<open>
  Claim C5.  For a received response with status code 200, the parser returns 200 and the
  response's headers, with the bytes read from the body and a nil error when the read
  succeeds, and with a nil body and the error
  \<open>Couldn't parse response body, err: <read error>\<close> when the read fails.
\<close>

theorem doParseResponse_200:
  "StatusCode r = 200 \<Longrightarrow>
   doParseResponse (Some r) err =
     (case read_err (Body r) of
        None \<Rightarrow> (200, Header r, Some (delivered (Body r)), None)
      | Some e \<Rightarrow>
          (200, Header r, None,
           Some (errors_New (''Couldn'' @ [CHR 0x27] @ ''t parse response body, err: '' @ Error e))))"
  by (simp add: doParseResponse_def http_StatusOK_def io_ReadAll_def split: option.splits)

theorem doParseResponse_200_witness:
  "StatusCode resp200 = 200 \<and> StatusCode resp200_broken = 200 \<and>
   doParseResponse (Some resp200) None =
     (200, Some [(''Content-Type'', [''text/plain''])], Some ''hello'', None) \<and>
   doParseResponse (Some resp200_broken) None =
     (200, Some [], None,
      Some (errors_New (''Couldn'' @ [CHR 0x27] @ ''t parse response body, err: unexpected EOF'')))"
  using doParseResponse_200 [of resp200 None] doParseResponse_200 [of resp200_broken None]
  by (simp add: resp200_def resp200_broken_def)

section \<open>Theorems about the Dispatcher\<close>

text \<open>
  The two loops either pass every hook or stop at the first hook that returns an error;
  the record grows by one event per hook called.
\<close>

lemma before_loop_result:
  "before_loop hooks i ctx req w tr = (r, ctx', req', w', tr') \<Longrightarrow>
     (r = None \<and> tr' = tr @ map (\<lambda>j. EvBefore j None) [i..<i + length hooks]) \<or>
     (\<exists>k e. r = Some e \<and> k < length hooks \<and>
        tr' = tr @ map (\<lambda>j. EvBefore j None) [i..<i + k] @ [EvBefore (i + k) (Some e)])"
proof (induction hooks arbitrary: i ctx req w tr)
  case Nil
  then show ?case by simp
next
  case (Cons hook hooks)
  obtain c1 err r1 w1 where b: "Before hook ctx req w = ((c1, err), r1, w1)"
    by (metis prod.exhaust)
  show ?case
  proof (cases err)
    case None
    with Cons.prems b
    have "before_loop hooks (Suc i) c1 r1 w1 (tr @ [EvBefore i None]) = (r, ctx', req', w', tr')"
      by simp
    from Cons.IH [OF this] show ?thesis
    proof
      assume "r = None \<and> tr' = (tr @ [EvBefore i None]) @ map (\<lambda>j. EvBefore j None) [Suc i..<Suc i + length hooks]"
      then show ?thesis by (simp add: upt_conv_Cons del: upt_Suc)
    next
      assume "\<exists>k e. r = Some e \<and> k < length hooks \<and>
          tr' = (tr @ [EvBefore i None]) @ map (\<lambda>j. EvBefore j None) [Suc i..<Suc i + k] @ [EvBefore (Suc i + k) (Some e)]"
      then obtain k e where ke: "r = Some e" "k < length hooks"
          "tr' = (tr @ [EvBefore i None]) @ map (\<lambda>j. EvBefore j None) [Suc i..<Suc i + k] @ [EvBefore (Suc i + k) (Some e)]"
        by blast
      have "tr' = tr @ map (\<lambda>j. EvBefore j None) [i..<i + Suc k] @ [EvBefore (i + Suc k) (Some e)]"
        using ke(3) by (simp add: upt_conv_Cons del: upt_Suc)
      with ke(1,2) show ?thesis by (intro disjI2 exI [of _ "Suc k"] exI [of _ e]) simp
    qed
  next
    case (Some e)
    with Cons.prems b have "r = Some e" "tr' = tr @ [EvBefore i (Some e)]" by auto
    then show ?thesis by (intro disjI2 exI [of _ 0] exI [of _ e]) simp
  qed
qed

lemma after_loop_result:
  "after_loop hooks i ctx c h d er w tr = (r, ctx', w', tr') \<Longrightarrow>
     (r = None \<and> tr' = tr @ map (\<lambda>j. EvAfter j c h d er None) [i..<i + length hooks]) \<or>
     (\<exists>k e. r = Some e \<and> k < length hooks \<and>
        tr' = tr @ map (\<lambda>j. EvAfter j c h d er None) [i..<i + k] @ [EvAfter (i + k) c h d er (Some e)])"
proof (induction hooks arbitrary: i ctx w tr)
  case Nil
  then show ?case by simp
next
  case (Cons hook hooks)
  obtain c1 err w1 where b: "After hook ctx c h d er w = ((c1, err), w1)"
    by (metis prod.exhaust)
  show ?case
  proof (cases err)
    case None
    with Cons.prems b
    have "after_loop hooks (Suc i) c1 c h d er w1 (tr @ [EvAfter i c h d er None]) = (r, ctx', w', tr')"
      by simp
    from Cons.IH [OF this] show ?thesis
    proof
      assume "r = None \<and> tr' = (tr @ [EvAfter i c h d er None]) @ map (\<lambda>j. EvAfter j c h d er None) [Suc i..<Suc i + length hooks]"
      then show ?thesis by (simp add: upt_conv_Cons del: upt_Suc)
    next
      assume "\<exists>k e. r = Some e \<and> k < length hooks \<and>
          tr' = (tr @ [EvAfter i c h d er None]) @ map (\<lambda>j. EvAfter j c h d er None) [Suc i..<Suc i + k] @ [EvAfter (Suc i + k) c h d er (Some e)]"
      then obtain k e where ke: "r = Some e" "k < length hooks"
          "tr' = (tr @ [EvAfter i c h d er None]) @ map (\<lambda>j. EvAfter j c h d er None) [Suc i..<Suc i + k] @ [EvAfter (Suc i + k) c h d er (Some e)]"
        by blast
      have "tr' = tr @ map (\<lambda>j. EvAfter j c h d er None) [i..<i + Suc k] @ [EvAfter (i + Suc k) c h d er (Some e)]"
        using ke(3) by (simp add: upt_conv_Cons del: upt_Suc)
      with ke(1,2) show ?thesis by (intro disjI2 exI [of _ "Suc k"] exI [of _ e]) simp
    qed
  next
    case (Some e)
    with Cons.prems b have "r = Some e" "tr' = tr @ [EvAfter i c h d er (Some e)]" by auto
    then show ?thesis by (intro disjI2 exI [of _ 0] exI [of _ e]) simp
  qed
qed

text \<open>The four ways a call of \<open>do\<close> can end, each with its record.\<close>

lemma do_cases:
  assumes "do g ctx httpRequest w = (res, w', tr)"
  shows
    "(\<exists>k e. k < length (globalHttpHook g) \<and> res = (- 1, None, None, Some e) \<and>
        tr = EvDo httpRequest # map (\<lambda>j. EvBefore j None) [0..<k] @ [EvBefore k (Some e)])
     \<or> (\<exists>r e. res = (- 1, None, None, Some e) \<and>
        tr = EvDo httpRequest # map (\<lambda>j. EvBefore j None) [0..<length (globalHttpHook g)]
             @ [EvTransport r (Some e)])
     \<or> (\<exists>r resp c h d er k e. doParseResponse resp None = (c, h, d, er) \<and>
        k < length (globalHttpHook g) \<and> res = (- 1, None, None, Some e) \<and>
        tr = EvDo httpRequest # map (\<lambda>j. EvBefore j None) [0..<length (globalHttpHook g)]
             @ [EvTransport r None, EvParse]
             @ map (\<lambda>j. EvAfter j c h d er None) [0..<k] @ [EvAfter k c h d er (Some e)])
     \<or> (\<exists>r resp c h d er. doParseResponse resp None = (c, h, d, er) \<and> res = (c, h, d, er) \<and>
        tr = EvDo httpRequest # map (\<lambda>j. EvBefore j None) [0..<length (globalHttpHook g)]
             @ [EvTransport r None, EvParse]
             @ map (\<lambda>j. EvAfter j c h d er None) [0..<length (globalHttpHook g)])"
proof -
  obtain r1 ctx1 req1 w1 tr1 where
    b: "before_loop (globalHttpHook g) 0 ctx httpRequest w [EvDo httpRequest] = (r1, ctx1, req1, w1, tr1)"
    by (metis prod.exhaust)
  from before_loop_result [OF b] show ?thesis
  proof
    assume "\<exists>k e. r1 = Some e \<and> k < length (globalHttpHook g) \<and>
       tr1 = [EvDo httpRequest] @ map (\<lambda>j. EvBefore j None) [0..<0 + k] @ [EvBefore (0 + k) (Some e)]"
    then obtain k e where ke: "r1 = Some e" "k < length (globalHttpHook g)"
       "tr1 = [EvDo httpRequest] @ map (\<lambda>j. EvBefore j None) [0..<0 + k] @ [EvBefore (0 + k) (Some e)]"
      by blast
    with assms b have "res = (- 1, None, None, Some e)" "tr = tr1"
      by (auto simp: do_def)
    with ke show ?thesis by auto
  next
    assume a: "r1 = None \<and> tr1 = [EvDo httpRequest] @ map (\<lambda>j. EvBefore j None) [0..<0 + length (globalHttpHook g)]"
    obtain resp err w2 where c: "httpClient g req1 w1 = ((resp, err), w2)"
      by (metis prod.exhaust)
    show ?thesis
    proof (cases err)
      case (Some e)
      with assms a b c have "res = (- 1, None, None, Some e)" "tr = tr1 @ [EvTransport req1 (Some e)]"
        by (auto simp: do_def)
      with a show ?thesis by auto
    next
      case None
      obtain c0 h d er where p: "doParseResponse resp None = (c0, h, d, er)"
        by (metis prod.exhaust)
      obtain r3 ctx3 w3 tr3 where
        al: "after_loop (globalHttpHook g) 0 ctx1 c0 h d er w2 (tr1 @ [EvTransport req1 None, EvParse])
              = (r3, ctx3, w3, tr3)"
        by (metis prod.exhaust)
      from after_loop_result [OF al] show ?thesis
      proof
        assume x: "r3 = None \<and> tr3 = (tr1 @ [EvTransport req1 None, EvParse])
                     @ map (\<lambda>j. EvAfter j c0 h d er None) [0..<0 + length (globalHttpHook g)]"
        with assms a b c None p al have "res = (c0, h, d, er)" "tr = tr3"
          by (auto simp: do_def)
        with a x p show ?thesis by auto
      next
        assume "\<exists>k e. r3 = Some e \<and> k < length (globalHttpHook g) \<and>
            tr3 = (tr1 @ [EvTransport req1 None, EvParse])
                  @ map (\<lambda>j. EvAfter j c0 h d er None) [0..<0 + k] @ [EvAfter (0 + k) c0 h d er (Some e)]"
        then obtain k e where ke: "r3 = Some e" "k < length (globalHttpHook g)"
            "tr3 = (tr1 @ [EvTransport req1 None, EvParse])
                  @ map (\<lambda>j. EvAfter j c0 h d er None) [0..<0 + k] @ [EvAfter (0 + k) c0 h d er (Some e)]"
          by blast
        with assms a b c None p al have "res = (- 1, None, None, Some e)" "tr = tr3"
          by (auto simp: do_def)
        with a ke have
          "tr = EvDo httpRequest # map (\<lambda>j. EvBefore j None) [0..<length (globalHttpHook g)]
             @ [EvTransport req1 None, EvParse]
             @ map (\<lambda>j. EvAfter j c0 h d er None) [0..<k] @ [EvAfter k c0 h d er (Some e)]"
          by simp
        with p ke(2) \<open>res = (- 1, None, None, Some e)\<close> show ?thesis by blast
      qed
    qed
  qed
qed

text \<open>
  Claim C1, as amended.  If the transport client's \<open>Do\<close> returns a non-nil error, the call
  returns (-1, nil, nil, that error) at once: the Response Parser is not called and no
  \<open>After\<close> hook is called; the \<open>Do\<close> call is the last thing the call does.
\<close>

theorem do_transport_error:
  assumes "do g ctx httpRequest w = (res, w', tr)"
    and "EvTransport r (Some e) \<in> set tr"
  shows "res = (- 1, None, None, Some e)
    \<and> EvParse \<notin> set tr
    \<and> (\<forall>j c h d er err. EvAfter j c h d er err \<notin> set tr)
    \<and> last tr = EvTransport r (Some e)"
proof -
  from do_cases [OF assms(1)] assms(2)
  have "res = (- 1, None, None, Some e) \<and>
        tr = EvDo httpRequest # map (\<lambda>j. EvBefore j None) [0..<length (globalHttpHook g)]
             @ [EvTransport r (Some e)]"
    by auto
  then show ?thesis by auto
qed

theorem do_transport_error_witness:
  "do g_down Background req0 w0 =
     ((- 1, None, None, Some (errors_New ''connection refused'')),
      \<lparr>transport_calls = 1, after_calls = 0\<rparr>,
      [EvDo req0, EvBefore 0 None, EvTransport req0 (Some (errors_New ''connection refused''))])
   \<and> EvParse \<notin> set [EvDo req0, EvBefore 0 None,
                      EvTransport req0 (Some (errors_New ''connection refused''))]
   \<and> (\<forall>j c h d er err. EvAfter j c h d er err
         \<notin> set [EvDo req0, EvBefore 0 None,
                  EvTransport req0 (Some (errors_New ''connection refused''))])"
proof -
  have h1: "do g_down Background req0 w0 =
     ((- 1, None, None, Some (errors_New ''connection refused'')),
      \<lparr>transport_calls = 1, after_calls = 0\<rparr>,
      [EvDo req0, EvBefore 0 None, EvTransport req0 (Some (errors_New ''connection refused''))])"
    by (simp add: do_def g_down_def timeHook_def downClient_def w0_def)
  have h2: "EvTransport req0 (Some (errors_New ''connection refused''))
      \<in> set [EvDo req0, EvBefore 0 None,
              EvTransport req0 (Some (errors_New ''connection refused''))]"
    by simp
  from do_transport_error [OF h1 h2] h1 show ?thesis by blast
qed

text \<open>
  Claim C1, as stated, fails: with one registered hook and a transport that refuses the
  connection, the call ends after the \<open>Do\<close> call; the hook's \<open>After\<close> callback has been
  called zero times.
\<close>

theorem do_transport_error_skips_After:
  "length (globalHttpHook g_down) = 1 \<and>
   do g_down Background req0 w0 =
     ((- 1, None, None, Some (errors_New ''connection refused'')),
      \<lparr>transport_calls = 1, after_calls = 0\<rparr>,
      [EvDo req0, EvBefore 0 None, EvTransport req0 (Some (errors_New ''connection refused''))])"
  by (simp add: do_def g_down_def timeHook_def downClient_def w0_def)

text \<open>
  Claim C2.  If the \<open>Before\<close> callback of hook \<open>i\<close> returns a non-nil error \<open>e\<close>, the call
  returns (-1, nil, nil, \<open>e\<close>); the hooks before \<open>i\<close> ran and returned nil, no \<open>Before\<close>
  callback after \<open>i\<close> runs, the transport client is not called, the parser is not called
  and no \<open>After\<close> callback runs.
\<close>

theorem do_before_error:
  assumes "do g ctx httpRequest w = (res, w', tr)"
    and "EvBefore i (Some e) \<in> set tr"
  shows "res = (- 1, None, None, Some e)
    \<and> tr = EvDo httpRequest # map (\<lambda>j. EvBefore j None) [0..<i] @ [EvBefore i (Some e)]
    \<and> (\<forall>j err. EvBefore j err \<in> set tr \<longrightarrow> j \<le> i)
    \<and> (\<forall>r err. EvTransport r err \<notin> set tr)
    \<and> EvParse \<notin> set tr
    \<and> (\<forall>j c h d er err. EvAfter j c h d er err \<notin> set tr)"
proof -
  from do_cases [OF assms(1)] assms(2)
  have "res = (- 1, None, None, Some e)
    \<and> tr = EvDo httpRequest # map (\<lambda>j. EvBefore j None) [0..<i] @ [EvBefore i (Some e)]"
    by auto
  then show ?thesis by auto
qed

theorem do_before_error_witness:
  "do g_deny Background req0 w0 =
     ((- 1, None, None, Some (errors_New ''denied'')),
      \<lparr>transport_calls = 0, after_calls = 0\<rparr>,
      [EvDo req0, EvBefore 0 None, EvBefore 1 (Some (errors_New ''denied''))])
   \<and> EvBefore 1 (Some (errors_New ''denied''))
       \<in> set [EvDo req0, EvBefore 0 None, EvBefore 1 (Some (errors_New ''denied''))]
   \<and> (\<forall>r err. EvTransport r err
         \<notin> set [EvDo req0, EvBefore 0 None, EvBefore 1 (Some (errors_New ''denied''))])
   \<and> (\<forall>j c h d er err. EvAfter j c h d er err
         \<notin> set [EvDo req0, EvBefore 0 None, EvBefore 1 (Some (errors_New ''denied''))])"
proof -
  have h1: "do g_deny Background req0 w0 =
     ((- 1, None, None, Some (errors_New ''denied'')),
      \<lparr>transport_calls = 0, after_calls = 0\<rparr>,
      [EvDo req0, EvBefore 0 None, EvBefore 1 (Some (errors_New ''denied''))])"
    by (simp add: do_def g_deny_def timeHook_def denyHook_def okClient_def w0_def)
  have h2: "EvBefore 1 (Some (errors_New ''denied''))
      \<in> set [EvDo req0, EvBefore 0 None, EvBefore 1 (Some (errors_New ''denied''))]"
    by simp
  from do_before_error [OF h1 h2] h1 h2 show ?thesis by blast
qed

text \<open>
  Claim C3.  If the \<open>After\<close> callback of hook \<open>i\<close> returns a non-nil error \<open>e\<close>, the call
  returns (-1, nil, nil, \<open>e\<close>) and that callback is the last thing the call does: no
  \<open>After\<close> callback after \<open>i\<close> runs.  The status code, headers, body and error that the
  callback received are the Response Parser's result for the transport's response,
  whatever they are (a 200 with its body as well as a failure); they are not returned.
\<close>

theorem do_after_error:
  assumes "do g ctx httpRequest w = (res, w', tr)"
    and "EvAfter i c h d er (Some e) \<in> set tr"
  shows "res = (- 1, None, None, Some e)
    \<and> (\<forall>j c' h' d' er' err. EvAfter j c' h' d' er' err \<in> set tr \<longrightarrow> j \<le> i)
    \<and> last tr = EvAfter i c h d er (Some e)
    \<and> (\<exists>resp. doParseResponse resp None = (c, h, d, er))"
proof -
  from do_cases [OF assms(1)] assms(2)
  obtain r resp where "doParseResponse resp None = (c, h, d, er)" "res = (- 1, None, None, Some e)"
    "tr = EvDo httpRequest # map (\<lambda>j. EvBefore j None) [0..<length (globalHttpHook g)]
             @ [EvTransport r None, EvParse]
             @ map (\<lambda>j. EvAfter j c h d er None) [0..<i] @ [EvAfter i c h d er (Some e)]"
    by auto
  then show ?thesis by auto
qed

theorem do_after_error_witness:
  "do g_audit Background req0 w0 =
     ((- 1, None, None, Some (errors_New ''audit failed'')),
      \<lparr>transport_calls = 1, after_calls = 2\<rparr>,
      [EvDo req0, EvBefore 0 None, EvBefore 1 None, EvBefore 2 None,
       EvTransport req0 None, EvParse,
       EvAfter 0 200 (Some [(''Content-Type'', [''text/plain''])]) (Some ''hello'') None None,
       EvAfter 1 200 (Some [(''Content-Type'', [''text/plain''])]) (Some ''hello'') None
         (Some (errors_New ''audit failed''))])
   \<and> last [EvDo req0, EvBefore 0 None, EvBefore 1 None, EvBefore 2 None,
            EvTransport req0 None, EvParse,
            EvAfter 0 200 (Some [(''Content-Type'', [''text/plain''])]) (Some ''hello'') None None,
            EvAfter 1 200 (Some [(''Content-Type'', [''text/plain''])]) (Some ''hello'') None
              (Some (errors_New ''audit failed''))]
       = EvAfter 1 200 (Some [(''Content-Type'', [''text/plain''])]) (Some ''hello'') None
           (Some (errors_New ''audit failed''))
   \<and> (\<exists>resp. doParseResponse resp None
         = (200, Some [(''Content-Type'', [''text/plain''])], Some ''hello'', None))"
proof -
  have h1: "do g_audit Background req0 w0 =
     ((- 1, None, None, Some (errors_New ''audit failed'')),
      \<lparr>transport_calls = 1, after_calls = 2\<rparr>,
      [EvDo req0, EvBefore 0 None, EvBefore 1 None, EvBefore 2 None,
       EvTransport req0 None, EvParse,
       EvAfter 0 200 (Some [(''Content-Type'', [''text/plain''])]) (Some ''hello'') None None,
       EvAfter 1 200 (Some [(''Content-Type'', [''text/plain''])]) (Some ''hello'') None
         (Some (errors_New ''audit failed''))])"
    by (simp add: do_def g_audit_def timeHook_def auditHook_def okClient_def w0_def
          doParseResponse_def resp200_def http_StatusOK_def io_ReadAll_def)
  have h2: "EvAfter 1 200 (Some [(''Content-Type'', [''text/plain''])]) (Some ''hello'') None
         (Some (errors_New ''audit failed''))
      \<in> set [EvDo req0, EvBefore 0 None, EvBefore 1 None, EvBefore 2 None,
              EvTransport req0 None, EvParse,
              EvAfter 0 200 (Some [(''Content-Type'', [''text/plain''])]) (Some ''hello'') None None,
              EvAfter 1 200 (Some [(''Content-Type'', [''text/plain''])]) (Some ''hello'') None
                (Some (errors_New ''audit failed''))]"
    by simp
  from do_after_error [OF h1 h2] h1 show ?thesis by blast
qed

section \<open>Theorems about the Request Builder\<close>

text \<open>The record of a \<open>do\<close> call starts with the request it was given, and names no other.\<close>

lemma do_EvDo:
  assumes "do g ctx httpRequest w = (res, w', tr)"
  shows "tr \<noteq> [] \<and> hd tr = EvDo httpRequest \<and> (\<forall>req. EvDo req \<in> set tr \<longrightarrow> req = httpRequest)"
  using do_cases [OF assms] by auto

text \<open>\<open>send\<close> for the methods that carry a body, and for those that do not.\<close>

lemma send_with_body:
  assumes "method = POST \<or> method = PUT \<or> method = PATCH"
  shows "send json_Marshal g ctx method url header parameter body w =
     (case resolveUrlWithParameter url parameter of
        Inl err \<Rightarrow> ((0, None, None, Some err), w, [])
      | Inr url' \<Rightarrow>
          (case http_NewRequest (method_string method) url'
                  (Some (case json_Marshal body of Inl e \<Rightarrow> [] | Inr bs \<Rightarrow> bs)) of
             Inl err \<Rightarrow> ((- 1, None, None, Some err), w, [])
           | Inr httpRequest \<Rightarrow>
               do g ctx
                  (if header \<noteq> None then httpRequest\<lparr>ReqHeader := mapHeader2netHeader header\<rparr>
                   else httpRequest)
                  w))"
proof -
  have c: "(method = POST \<or> method = PUT \<or> method = PATCH) = True" using assms by simp
  show ?thesis unfolding send_def c if_True Let_def ..
qed

lemma send_without_body:
  assumes "method = GET \<or> method = DELETE"
  shows "send json_Marshal g ctx method url header parameter body w =
     (case resolveUrlWithParameter url parameter of
        Inl err \<Rightarrow> ((0, None, None, Some err), w, [])
      | Inr url' \<Rightarrow>
          (case http_NewRequest (method_string method) url' None of
             Inl err \<Rightarrow> ((- 1, None, None, Some err), w, [])
           | Inr httpRequest \<Rightarrow>
               do g ctx
                  (if header \<noteq> None then httpRequest\<lparr>ReqHeader := mapHeader2netHeader header\<rparr>
                   else httpRequest)
                  w))"
proof -
  have c: "(method = POST \<or> method = PUT \<or> method = PATCH) = False" using assms by auto
  show ?thesis unfolding send_def c if_False ..
qed

text \<open>
  Claim C8.  For a GET or DELETE call the body argument has no effect: the call is the same
  as with a nil body, and the request that \<open>send\<close> builds and hands to the dispatcher has no
  body attached (\<open>Body\<close> nil, \<open>ContentLength\<close> 0).  \<open>DeleteWithContext\<close>, the one public
  operation of the two methods that takes a body, ignores it.
\<close>

theorem send_GET_DELETE_no_body:
  assumes "method = GET \<or> method = DELETE"
  shows "send json_Marshal g ctx method url header parameter body w
           = send json_Marshal g ctx method url header parameter None w
    \<and> (\<forall>req. EvDo req \<in> set (snd (snd (send json_Marshal g ctx method url header parameter body w)))
          \<longrightarrow> ReqBody req = None \<and> ContentLength req = 0)
    \<and> DeleteWithContext json_Marshal g ctx url header parameter body w
           = DeleteWithContext json_Marshal g ctx url header parameter None w"
proof -
  note unfold = send_without_body [OF assms]
  have indep: "send json_Marshal g ctx method url header parameter body w
           = send json_Marshal g ctx method url header parameter None w"
    by (simp only: unfold)
  have nobody: "ReqBody req = None \<and> ContentLength req = 0"
    if m: "EvDo req \<in> set (snd (snd (send json_Marshal g ctx method url header parameter body w)))"
    for req
  proof (cases "resolveUrlWithParameter url parameter")
    case (Inl err)
    with m show ?thesis by (simp add: unfold)
  next
    case (Inr u)
    show ?thesis
    proof (cases "http_NewRequest (method_string method) u None")
      case (Inl err)
      with m Inr show ?thesis by (simp add: unfold)
    next
      case nr: (Inr hr)
      define hr' where "hr' = (if header \<noteq> None then hr\<lparr>ReqHeader := mapHeader2netHeader header\<rparr> else hr)"
      have s: "send json_Marshal g ctx method url header parameter body w = do g ctx hr' w"
        using Inr nr by (simp add: unfold hr'_def)
      obtain res w' tr where d: "do g ctx hr' w = (res, w', tr)" by (metis prod.exhaust)
      from m s d have "EvDo req \<in> set tr" by simp
      with do_EvDo [OF d] have "req = hr'" by blast
      moreover from nr have "ReqBody hr = None \<and> ContentLength hr = 0"
        by (cases "url_Parse u") (auto simp: http_NewRequest_def)
      ultimately show ?thesis by (simp add: hr'_def)
    qed
  qed
  have del: "DeleteWithContext json_Marshal g ctx url header parameter body w
           = DeleteWithContext json_Marshal g ctx url header parameter None w"
  proof -
    have d: "DELETE = GET \<or> DELETE = DELETE" by simp
    show ?thesis
      unfolding DeleteWithContext_def by (simp only: send_without_body [OF d])
  qed
  show ?thesis
  proof (intro conjI allI impI)
    show "send json_Marshal g ctx method url header parameter body w
           = send json_Marshal g ctx method url header parameter None w"
      by (rule indep)
  next
    fix req
    assume "EvDo req \<in> set (snd (snd (send json_Marshal g ctx method url header parameter body w)))"
    then show "ReqBody req = None" using nobody by blast
  next
    fix req
    assume "EvDo req \<in> set (snd (snd (send json_Marshal g ctx method url header parameter body w)))"
    then show "ContentLength req = 0" using nobody by blast
  next
    show "DeleteWithContext json_Marshal g ctx url header parameter body w
           = DeleteWithContext json_Marshal g ctx url header parameter None w"
      by (rule del)
  qed
qed

theorem send_GET_DELETE_no_body_witness:
  "(GET = GET \<or> GET = DELETE)
   \<and> send sample_Marshal g_ok Background GET ''http://h:8080''
        (Some [(''content-type'', ''application/json'')]) [(''a'', ''1'')] (Some Chan) w0
     = send sample_Marshal g_ok Background GET ''http://h:8080''
        (Some [(''content-type'', ''application/json'')]) [(''a'', ''1'')] None w0
   \<and> EvDo req_get \<in> set (snd (snd (send sample_Marshal g_ok Background GET ''http://h:8080''
        (Some [(''content-type'', ''application/json'')]) [(''a'', ''1'')] (Some Chan) w0)))
   \<and> ReqBody req_get = None \<and> ContentLength req_get = 0"
proof -
  have m: "GET = GET \<or> GET = DELETE" by simp
  have h: "send sample_Marshal g_ok Background GET ''http://h:8080''
      (Some [(''content-type'', ''application/json'')]) [(''a'', ''1'')] (Some Chan) w0 =
   ((200, Some [(''Content-Type'', [''text/plain''])], Some ''hello'', None),
    \<lparr>transport_calls = 1, after_calls = 1\<rparr>,
    [EvDo req_get, EvBefore 0 None, EvTransport req_get None, EvParse,
     EvAfter 0 200 (Some [(''Content-Type'', [''text/plain''])]) (Some ''hello'') None None])"
    by code_simp
  have e: "EvDo req_get \<in> set (snd (snd (send sample_Marshal g_ok Background GET ''http://h:8080''
        (Some [(''content-type'', ''application/json'')]) [(''a'', ''1'')] (Some Chan) w0)))"
    by (simp only: h snd_conv) simp
  from send_GET_DELETE_no_body [OF m, of sample_Marshal g_ok Background "''http://h:8080''"
        "Some [(''content-type'', ''application/json'')]" "[(''a'', ''1'')]" "Some Chan" w0] e m
  show ?thesis by blast
qed

text \<open>
  Claim C9.  For a POST, PUT or PATCH call the request that \<open>send\<close> builds carries the JSON
  encoding of the body argument (nil included) as its payload.  When the encoding fails,
  no error is returned for it: the call is the one made with an empty payload.  Whenever
  the URL resolves and the request can be built, the request is handed to the dispatcher.
\<close>

theorem send_POST_PUT_PATCH_body:
  assumes "method = POST \<or> method = PUT \<or> method = PATCH"
  shows "(\<forall>req. EvDo req \<in> set (snd (snd (send json_Marshal g ctx method url header parameter body w)))
          \<longrightarrow> ReqBody req = Some (case json_Marshal body of Inl e \<Rightarrow> [] | Inr bs \<Rightarrow> bs))
    \<and> (\<forall>e. json_Marshal body = Inl e
          \<longrightarrow> send json_Marshal g ctx method url header parameter body w
              = send (\<lambda>b. Inr []) g ctx method url header parameter body w)
    \<and> (\<forall>u r. resolveUrlWithParameter url parameter = Inr u \<and> url_Parse u = Inr r
          \<longrightarrow> (\<exists>req. hd (snd (snd (send json_Marshal g ctx method url header parameter body w)))
                        = EvDo req
                     \<and> EvDo req \<in> set (snd (snd (send json_Marshal g ctx method url header
                                                     parameter body w)))))"
proof -
  define payload where "payload = (case json_Marshal body of Inl e \<Rightarrow> [] | Inr bs \<Rightarrow> bs)"
  note unfold = send_with_body [OF assms, of json_Marshal g ctx url header parameter body w,
                                folded payload_def]
  have a: "ReqBody req = Some payload"
    if m: "EvDo req \<in> set (snd (snd (send json_Marshal g ctx method url header parameter body w)))"
    for req
  proof (cases "resolveUrlWithParameter url parameter")
    case (Inl err)
    with m show ?thesis by (simp add: unfold)
  next
    case (Inr u)
    show ?thesis
    proof (cases "http_NewRequest (method_string method) u (Some payload)")
      case (Inl err)
      with m Inr show ?thesis by (simp add: unfold)
    next
      case nr: (Inr hr)
      define hr' where "hr' = (if header \<noteq> None then hr\<lparr>ReqHeader := mapHeader2netHeader header\<rparr> else hr)"
      have s: "send json_Marshal g ctx method url header parameter body w = do g ctx hr' w"
        using Inr nr by (simp add: unfold hr'_def)
      obtain res w' tr where d: "do g ctx hr' w = (res, w', tr)" by (metis prod.exhaust)
      from m s d have "EvDo req \<in> set tr" by simp
      with do_EvDo [OF d] have "req = hr'" by blast
      moreover from nr have "ReqBody hr = Some payload"
        by (cases "url_Parse u") (auto simp: http_NewRequest_def)
      ultimately show ?thesis by (simp add: hr'_def)
    qed
  qed
  have b: "send json_Marshal g ctx method url header parameter body w
              = send (\<lambda>b. Inr []) g ctx method url header parameter body w"
    if f: "json_Marshal body = Inl e" for e
  proof -
    have "payload = []" using f by (simp add: payload_def)
    then show ?thesis
      by (simp only: unfold send_with_body [OF assms, of "\<lambda>b. Inr []"] sum.case)
  qed
  have c: "\<exists>req. hd (snd (snd (send json_Marshal g ctx method url header parameter body w))) = EvDo req
              \<and> EvDo req \<in> set (snd (snd (send json_Marshal g ctx method url header parameter body w)))"
    if ru: "resolveUrlWithParameter url parameter = Inr u" and pu: "url_Parse u = Inr r" for u r
  proof -
    obtain hr where nr: "http_NewRequest (method_string method) u (Some payload) = Inr hr"
      using pu by (simp add: http_NewRequest_def)
    define hr' where "hr' = (if header \<noteq> None then hr\<lparr>ReqHeader := mapHeader2netHeader header\<rparr> else hr)"
    have s: "send json_Marshal g ctx method url header parameter body w = do g ctx hr' w"
      using ru nr by (simp add: unfold hr'_def)
    obtain res w' tr where d: "do g ctx hr' w = (res, w', tr)" by (metis prod.exhaust)
    from do_EvDo [OF d] have ne: "tr \<noteq> []" and h: "hd tr = EvDo hr'"
      by simp_all
    from hd_in_set [OF ne] h have "EvDo hr' \<in> set tr" by simp
    with h s d show ?thesis by simp
  qed
  show ?thesis
  proof (intro conjI allI impI)
    fix req
    assume "EvDo req \<in> set (snd (snd (send json_Marshal g ctx method url header parameter body w)))"
    then show "ReqBody req = Some (case json_Marshal body of Inl e \<Rightarrow> [] | Inr bs \<Rightarrow> bs)"
      using a by (simp add: payload_def)
  next
    fix e
    assume "json_Marshal body = Inl e"
    then show "send json_Marshal g ctx method url header parameter body w
              = send (\<lambda>b. Inr []) g ctx method url header parameter body w"
      by (rule b)
  next
    fix u r
    assume "resolveUrlWithParameter url parameter = Inr u \<and> url_Parse u = Inr r"
    then show "\<exists>req. hd (snd (snd (send json_Marshal g ctx method url header parameter body w))) = EvDo req
              \<and> EvDo req \<in> set (snd (snd (send json_Marshal g ctx method url header parameter body w)))"
      using c by blast
  qed
qed

theorem send_POST_PUT_PATCH_body_witness:
  "(POST = POST \<or> POST = PUT \<or> POST = PATCH)
   \<and> sample_Marshal (Some Chan) = Inl (errors_New ''json: unsupported type: chan int'')
   \<and> send sample_Marshal g_ok Background POST ''http://h:8080'' None [(''a'', ''1'')] (Some Chan) w0
     = ((200, Some [(''Content-Type'', [''text/plain''])], Some ''hello'', None),
        \<lparr>transport_calls = 1, after_calls = 1\<rparr>,
        [EvDo (req_post []), EvBefore 0 None, EvTransport (req_post []) None, EvParse,
         EvAfter 0 200 (Some [(''Content-Type'', [''text/plain''])]) (Some ''hello'') None None])
   \<and> send sample_Marshal g_ok Background POST ''http://h:8080'' None [(''a'', ''1'')] (Some Chan) w0
     = send (\<lambda>b. Inr []) g_ok Background POST ''http://h:8080'' None [(''a'', ''1'')] (Some Chan) w0
   \<and> ReqBody (req_post []) = Some []"
proof -
  have m: "POST = POST \<or> POST = PUT \<or> POST = PATCH" by simp
  have f: "sample_Marshal (Some Chan) = Inl (errors_New ''json: unsupported type: chan int'')"
    by simp
  have h: "send sample_Marshal g_ok Background POST ''http://h:8080'' None [(''a'', ''1'')] (Some Chan) w0
     = ((200, Some [(''Content-Type'', [''text/plain''])], Some ''hello'', None),
        \<lparr>transport_calls = 1, after_calls = 1\<rparr>,
        [EvDo (req_post []), EvBefore 0 None, EvTransport (req_post []) None, EvParse,
         EvAfter 0 200 (Some [(''Content-Type'', [''text/plain''])]) (Some ''hello'') None None])"
    by code_simp
  have e: "EvDo (req_post []) \<in> set (snd (snd (send sample_Marshal g_ok Background POST
        ''http://h:8080'' None [(''a'', ''1'')] (Some Chan) w0)))"
    by (simp only: h snd_conv) simp
  from send_POST_PUT_PATCH_body [OF m, of sample_Marshal g_ok Background "''http://h:8080''"
        None "[(''a'', ''1'')]" "Some Chan" w0] e f
  have "ReqBody (req_post []) = Some []"
    and "send sample_Marshal g_ok Background POST ''http://h:8080'' None [(''a'', ''1'')] (Some Chan) w0
     = send (\<lambda>b. Inr []) g_ok Background POST ''http://h:8080'' None [(''a'', ''1'')] (Some Chan) w0"
    by auto
  with m f h show ?thesis by blast
qed

text \<open>
  Claim C10.  If URL resolution fails, \<open>send\<close>, and with it every public operation, returns
  status code 0 (not -1) with nil headers, nil body and the parse error; the record of the
  call is empty and the world is unchanged: no hook and no transport client was called.
\<close>

theorem send_resolve_error:
  assumes "resolveUrlWithParameter url parameter = Inl err"
  shows "send json_Marshal g ctx method url header parameter body w = ((0, None, None, Some err), w, [])
    \<and> GetWithContext json_Marshal g ctx url header parameter w = ((0, None, None, Some err), w, [])
    \<and> Get json_Marshal g url header parameter w = ((0, None, None, Some err), w, [])
    \<and> PostWithContext json_Marshal g ctx url header parameter body w = ((0, None, None, Some err), w, [])
    \<and> Post json_Marshal g url header parameter body w = ((0, None, None, Some err), w, [])
    \<and> PatchWithContext json_Marshal g ctx url header parameter body w = ((0, None, None, Some err), w, [])
    \<and> Patch json_Marshal g url header parameter body w = ((0, None, None, Some err), w, [])
    \<and> PutWithContext json_Marshal g ctx url header parameter body w = ((0, None, None, Some err), w, [])
    \<and> Put json_Marshal g url header parameter body w = ((0, None, None, Some err), w, [])
    \<and> DeleteWithContext json_Marshal g ctx url header parameter body w = ((0, None, None, Some err), w, [])
    \<and> Delete json_Marshal g url header parameter w = ((0, None, None, Some err), w, [])"
  using assms
  by (simp add: send_def GetWithContext_def Get_def PostWithContext_def Post_def
        PatchWithContext_def Patch_def PutWithContext_def Put_def DeleteWithContext_def Delete_def)

theorem send_resolve_error_witness:
  "resolveUrlWithParameter '':foo'' [(''a'', ''1'')]
     = Inl (url_Error ''parse'' '':foo'' (errors_New ''missing protocol scheme''))
   \<and> Get sample_Marshal g_deny '':foo'' None [(''a'', ''1'')] w0
     = ((0, None, None, Some (url_Error ''parse'' '':foo'' (errors_New ''missing protocol scheme''))),
        w0, [])
   \<and> Post sample_Marshal g_deny '':foo'' None [(''a'', ''1'')] (Some (Num 1)) w0
     = ((0, None, None, Some (url_Error ''parse'' '':foo'' (errors_New ''missing protocol scheme''))),
        w0, [])"
proof -
  have h: "resolveUrlWithParameter '':foo'' [(''a'', ''1'')]
     = Inl (url_Error ''parse'' '':foo'' (errors_New ''missing protocol scheme''))"
    by code_simp
  from send_resolve_error [OF h, of sample_Marshal g_deny Background GET None "Some (Num 1)" w0] h
  show ?thesis by blast
qed

section \<open>Theorems about the URL Resolver\<close>

subsection \<open>Query values\<close>

lemma Values_lookup_store:
  "Values_lookup (Values_store v key vs) k = (if k = key then vs else Values_lookup v k)"
  by (induction v key vs rule: Values_store.induct) (auto simp: Values_lookup_def)

lemma keys_Values_store:
  "map fst (Values_store v key vs) = (if key \<in> set (map fst v) then map fst v else map fst v @ [key])"
  by (induction v key vs rule: Values_store.induct) auto

lemma distinct_Values_store:
  "distinct (map fst v) \<Longrightarrow> distinct (map fst (Values_store v key vs))"
  by (simp add: keys_Values_store)

lemma Values_lookup_absent: "k \<notin> set (map fst v) \<Longrightarrow> Values_lookup v k = []"
  by (simp add: Values_lookup_def map_of_eq_None_iff [THEN iffD2])

text \<open>The loop over the parameters.\<close>

lemma fold_Set_other:
  "k \<notin> fst ` set parameters \<Longrightarrow>
   Values_lookup (fold (\<lambda>(key, val) q. Values_Set q key val) parameters q) k = Values_lookup q k"
  by (induction parameters arbitrary: q)
     (auto simp: Values_Set_def Values_lookup_store)

lemma fold_Set_member:
  "distinct (map fst parameters) \<Longrightarrow> (k, v) \<in> set parameters \<Longrightarrow>
   Values_lookup (fold (\<lambda>(key, val) q. Values_Set q key val) parameters q) k = [v]"
proof (induction parameters arbitrary: q)
  case Nil
  then show ?case by simp
next
  case (Cons p ps)
  show ?case
  proof (cases "p = (k, v)")
    case True
    with Cons.prems have "k \<notin> fst ` set ps" by auto
    then have "Values_lookup (fold (\<lambda>(key, val) q. Values_Set q key val) ps (Values_Set q k v)) k
               = Values_lookup (Values_Set q k v) k"
      by (rule fold_Set_other)
    also have "\<dots> = [v]" by (simp add: Values_Set_def Values_lookup_store)
    finally show ?thesis using True by simp
  next
    case False
    with Cons.prems have "(k, v) \<in> set ps" "distinct (map fst ps)" by auto
    with Cons.IH show ?thesis by simp
  qed
qed

lemma distinct_fold_Set:
  "distinct (map fst q) \<Longrightarrow>
   distinct (map fst (fold (\<lambda>(key, val) q. Values_Set q key val) parameters q))"
  by (induction parameters arbitrary: q)
     (auto simp: Values_Set_def distinct_Values_store)

lemma distinct_parseQuery:
  "distinct (map fst m) \<Longrightarrow> distinct (map fst (parseQuery m query))"
proof (induction m query rule: parseQuery.induct)
  case (1 m query)
  show ?case
  proof (cases "query = []")
    case True
    with "1.prems" show ?thesis by (subst parseQuery.simps) simp
  next
    case False
    obtain key query' where c: "strings_Cut query CHR ''&'' = (key, query')"
      by (metis prod.exhaust)
    obtain key0 value0 where c2: "strings_Cut key CHR ''='' = (key0, value0)"
      by (metis prod.exhaust)
    show ?thesis
      using False c c2 "1.IH" "1.prems"
      by (subst parseQuery.simps)
         (auto simp: distinct_Values_store split: sum.splits simp del: parseQuery.simps)
  qed
qed

text \<open>
  The pairs of a query string are the pairs \<open>parseQuery\<close> accepts: a pair with a
  semicolon or with a malformed escape is not read, a repeated key keeps all its values.
\<close>

lemma parseQuery_example:
  "parseQuery [] ''a=1&x=%zz&b=2;c=3&a=4&d'' = [(''a'', [''1'', ''4'']), (''d'', [[]])]"
  by code_simp

text \<open>What \<open>Encode\<close> writes for one key.\<close>

lemma concat_select:
  "distinct ks \<Longrightarrow>
   concat (map (\<lambda>k'. if k' = k then xs else []) ks) = (if k \<in> set ks then xs else [])"
  by (induction ks) auto

lemma filter_Encode_pairs:
  assumes "distinct (map fst v)"
  shows "filter (\<lambda>p. fst p = k) (Encode_pairs v) = map (\<lambda>x. (k, x)) (Values_lookup v k)"
proof -
  have "filter (\<lambda>p. fst p = k) (Encode_pairs v)
        = concat (map (\<lambda>k'. if k' = k then map (\<lambda>x. (k, x)) (Values_lookup v k) else [])
                      (sort (map fst v)))"
    unfolding Encode_pairs_def filter_concat map_map comp_def
    by (rule arg_cong [where f = concat], rule map_cong) (auto simp: filter_map comp_def)
  also have "\<dots> = (if k \<in> set (sort (map fst v)) then map (\<lambda>x. (k, x)) (Values_lookup v k) else [])"
    using assms by (intro concat_select) simp
  also have "\<dots> = map (\<lambda>x. (k, x)) (Values_lookup v k)"
    using Values_lookup_absent [of k v] by auto
  finally show ?thesis .
qed

subsection \<open>Query escaping and its inverse\<close>

lemma upperhex_table:
  "\<forall>d \<in> set [0..<16]. ishex (upperhex d) \<and> unhex (upperhex d) = d \<and> upperhex d \<notin> set ''&;=''"
  by code_simp

lemma upperhex_props:
  assumes "d < 16"
  shows "ishex (upperhex d)" and "unhex (upperhex d) = d"
    and "upperhex d \<notin> set ''&;=''"
proof -
  from assms have "d \<in> set [0..<16]" by simp
  with upperhex_table
  have "ishex (upperhex d) \<and> unhex (upperhex d) = d \<and> upperhex d \<notin> set ''&;=''"
    by blast
  then show "ishex (upperhex d)" and "unhex (upperhex d) = d"
    and "upperhex d \<notin> set ''&;=''" by simp_all
qed

lemma byte_split: "16 * (of_char c div 16) + of_char c mod 16 = (of_char c :: nat)"
  by simp

lemma of_char_nibbles: "(of_char c :: nat) div 16 < 16" "(of_char c :: nat) mod 16 < 16"
proof -
  have "(of_char c :: nat) < 256" by (rule nat_of_char_less_256)
  then show "(of_char c :: nat) div 16 < 16" by arith
  show "(of_char c :: nat) mod 16 < 16" by simp
qed

text \<open>Bytes that query escaping leaves alone are none of the bytes that have a meaning
  in a query string.\<close>

lemma shouldEscape_query_table:
  "\<forall>c \<in> set ''%+&;=''. shouldEscape c encodeQueryComponent"
  by code_simp

lemma shouldEscape_query_special:
  "c \<in> set ''%+&;='' \<Longrightarrow> shouldEscape c encodeQueryComponent"
  using shouldEscape_query_table by blast

lemma escape_byte_no_separator:
  "b \<in> set (escape_byte encodeQueryComponent c) \<Longrightarrow> b \<notin> set ''&;=''"
proof (cases "shouldEscape c encodeQueryComponent")
  case True
  assume "b \<in> set (escape_byte encodeQueryComponent c)"
  with True upperhex_props(3) [OF of_char_nibbles(1) [of c]]
       upperhex_props(3) [OF of_char_nibbles(2) [of c]]
  show ?thesis by (auto simp: escape_byte_def split: if_splits)
next
  case False
  assume "b \<in> set (escape_byte encodeQueryComponent c)"
  with False have "b = c" by (simp add: escape_byte_def)
  with False shouldEscape_query_special [of c] show ?thesis by auto
qed

lemma QueryEscape_no_separator: "b \<in> set (QueryEscape s) \<Longrightarrow> b \<notin> set ''&;=''"
  unfolding QueryEscape_def escape_def using escape_byte_no_separator by auto

lemma unescape_check_plain:
  "c \<noteq> CHR ''%'' \<Longrightarrow>
   unescape_check (c # s) encodeQueryComponent = unescape_check s encodeQueryComponent"
  by simp

lemma unescape_build_plain:
  assumes "c \<noteq> CHR ''%''"
  shows "unescape_build (c # s) mode
     = (if c = CHR ''+'' \<and> mode = encodeQueryComponent then CHR '' '' else c) # unescape_build s mode"
proof (cases s)
  case Nil
  then show ?thesis by simp
next
  case (Cons h1 t)
  with assms show ?thesis by (cases t) simp_all
qed

lemma unescape_check_escape_byte:
  "unescape_check (escape_byte encodeQueryComponent c @ rest) encodeQueryComponent
     = unescape_check rest encodeQueryComponent"
proof (cases "shouldEscape c encodeQueryComponent")
  case True
  show ?thesis
  proof (cases "c = CHR '' ''")
    case sp: True
    with True show ?thesis by (simp add: escape_byte_def)
  next
    case False
    with True upperhex_props(1) [OF of_char_nibbles(1) [of c]]
         upperhex_props(1) [OF of_char_nibbles(2) [of c]]
    show ?thesis by (simp add: escape_byte_def)
  qed
next
  case False
  with shouldEscape_query_special [of c] have "c \<noteq> CHR ''%''" by auto
  with False show ?thesis by (simp add: escape_byte_def)
qed

lemma unescape_build_escape_byte:
  "unescape_build (escape_byte encodeQueryComponent c @ rest) encodeQueryComponent
     = c # unescape_build rest encodeQueryComponent"
proof (cases "shouldEscape c encodeQueryComponent")
  case True
  show ?thesis
  proof (cases "c = CHR '' ''")
    case sp: True
    with True show ?thesis by (simp add: escape_byte_def unescape_build_plain)
  next
    case False
    have "char_of (16 * unhex (upperhex (of_char c div 16)) + unhex (upperhex (of_char c mod 16))) = c"
      by (simp only: upperhex_props(2) [OF of_char_nibbles(1)]
            upperhex_props(2) [OF of_char_nibbles(2)] byte_split char_of_char)
    with True False show ?thesis by (simp add: escape_byte_def)
  qed
next
  case False
  with shouldEscape_query_special [of c] have "c \<noteq> CHR ''%''" "c \<noteq> CHR ''+''" by auto
  with False show ?thesis by (simp add: escape_byte_def unescape_build_plain)
qed

lemma QueryUnescape_QueryEscape: "QueryUnescape (QueryEscape s) = Inr s"
proof -
  have c: "unescape_check (escape s encodeQueryComponent) encodeQueryComponent = None"
    by (induction s) (simp_all add: escape_def unescape_check_escape_byte)
  have b: "unescape_build (escape s encodeQueryComponent) encodeQueryComponent = s"
    by (induction s) (simp_all add: escape_def unescape_build_escape_byte)
  from c b show ?thesis by (simp add: QueryUnescape_def QueryEscape_def unescape_def)
qed

lemma strings_Cut_at:
  assumes "sep \<notin> set p"
  shows "strings_Cut (p @ sep # rest) sep = (p, rest)"
proof -
  from assms have a: "\<And>x. x \<in> set p \<Longrightarrow> x \<noteq> sep" by auto
  have "takeWhile (\<lambda>c. c \<noteq> sep) (p @ sep # rest) = p"
    using takeWhile_append2 [of p "\<lambda>c. c \<noteq> sep" "sep # rest", OF a] by simp
  moreover have "dropWhile (\<lambda>c. c \<noteq> sep) (p @ sep # rest) = sep # rest"
    using dropWhile_append2 [of p "\<lambda>c. c \<noteq> sep" "sep # rest", OF a] by simp
  ultimately show ?thesis unfolding strings_Cut_def by simp
qed

lemma strings_Cut_none:
  assumes "sep \<notin> set p"
  shows "strings_Cut p sep = (p, [])"
proof -
  from assms have a: "\<forall>x \<in> set p. x \<noteq> sep" by auto
  then have t: "takeWhile (\<lambda>c. c \<noteq> sep) p = p" and d: "dropWhile (\<lambda>c. c \<noteq> sep) p = []"
    by simp_all
  show ?thesis unfolding strings_Cut_def t d by simp
qed


subsection \<open>Reading back what Encode wrote\<close>

lemma encode_pair_props:
  "CHR ''&'' \<notin> set (encode_pair p)" "CHR '';'' \<notin> set (encode_pair p)" "encode_pair p \<noteq> []"
  "strings_Cut (encode_pair p) CHR ''='' = (QueryEscape (fst p), QueryEscape (snd p))"
proof -
  show "CHR ''&'' \<notin> set (encode_pair p)" "CHR '';'' \<notin> set (encode_pair p)"
    using QueryEscape_no_separator [of "CHR ''&''"] QueryEscape_no_separator [of "CHR '';''"]
    by (auto simp: encode_pair_def)
  show "encode_pair p \<noteq> []" by (simp add: encode_pair_def)
  have "CHR ''='' \<notin> set (QueryEscape (fst p))"
    using QueryEscape_no_separator [of "CHR ''=''"] by auto
  then show "strings_Cut (encode_pair p) CHR ''='' = (QueryEscape (fst p), QueryEscape (snd p))"
    unfolding encode_pair_def using strings_Cut_at [of "CHR ''=''" "QueryEscape (fst p)"] by simp
qed

lemma parseQuery_last:
  "parseQuery m (encode_pair (k, v)) = Values_store m k (Values_lookup m k @ [v])"
proof -
  have c: "strings_Cut (encode_pair (k, v)) CHR ''&'' = (encode_pair (k, v), [])"
    by (rule strings_Cut_none) (rule encode_pair_props)
  show ?thesis
    apply (subst parseQuery.simps)
    apply (simp only: c encode_pair_props split fst_conv snd_conv Let_def
             QueryUnescape_QueryEscape sum.case if_False)
    apply (subst parseQuery.simps)
    apply simp
    done
qed

lemma parseQuery_next:
  "parseQuery m (encode_pair (k, v) @ CHR ''&'' # rest)
     = parseQuery (Values_store m k (Values_lookup m k @ [v])) rest"
proof -
  have c: "strings_Cut (encode_pair (k, v) @ CHR ''&'' # rest) CHR ''&'' = (encode_pair (k, v), rest)"
    by (rule strings_Cut_at) (rule encode_pair_props)
  have ne: "encode_pair (k, v) @ CHR ''&'' # rest \<noteq> []" by simp
  show ?thesis
    apply (subst parseQuery.simps)
    apply (simp only: c ne encode_pair_props split fst_conv snd_conv Let_def
             QueryUnescape_QueryEscape sum.case if_False)
    done
qed

lemma parseQuery_join_amp:
  "parseQuery m (join_amp (map encode_pair ps))
     = fold (\<lambda>(k, v) m. Values_store m k (Values_lookup m k @ [v])) ps m"
proof (induction ps arbitrary: m)
  case Nil
  show ?case by (subst parseQuery.simps) simp
next
  case (Cons p ps)
  obtain k v where p: "p = (k, v)" by (cases p)
  show ?case
  proof (cases ps)
    case Nil
    with p show ?thesis by (simp add: parseQuery_last del: parseQuery.simps)
  next
    case (Cons q qs)
    with p Cons.IH show ?thesis by (simp add: parseQuery_next del: parseQuery.simps)
  qed
qed

lemma lookup_fold_append:
  "Values_lookup (fold (\<lambda>(k, v) m. Values_store m k (Values_lookup m k @ [v])) ps m) key
     = Values_lookup m key @ map snd (filter (\<lambda>p. fst p = key) ps)"
  by (induction ps arbitrary: m) (auto simp: Values_lookup_store)

lemma Encode_eq: "Encode v = join_amp (map encode_pair (Encode_pairs v))"
  by (simp only: Encode_def)

lemma Query_Encode:
  assumes "distinct (map fst q)"
  shows "Values_lookup (parseQuery [] (Encode q)) k = Values_lookup q k"
proof -
  have "Values_lookup (parseQuery [] (Encode q)) k
          = Values_lookup [] k @ map snd (filter (\<lambda>p. fst p = k) (Encode_pairs q))"
    by (simp only: Encode_eq parseQuery_join_amp lookup_fold_append)
  also have "\<dots> = map snd (map (\<lambda>x. (k, x)) (Values_lookup q k))"
    by (simp add: filter_Encode_pairs [OF assms] Values_lookup_def)
  also have "\<dots> = Values_lookup q k" by (simp add: comp_def)
  finally show ?thesis .
qed

subsection \<open>The claims\<close>

text \<open>
  Claim C6.  The resolver maps the three golden inputs to the outputs given: the parameter
  \<open>msg\<close> with value \<open>{"a":1}\<close> is added to \<open>http://h:8080\<close>, to
  \<open>http://h:8080?example=1\<close> and to the bare host reference \<open>www.example.com\<close>, the
  value percent-encoded.
\<close>

theorem resolveUrlWithParameter_golden:
  "resolveUrlWithParameter ''http://h:8080'' [(''msg'', json_a1)]
     = Inr ''http://h:8080?msg=%7B%22a%22%3A1%7D''
   \<and> resolveUrlWithParameter ''http://h:8080?example=1'' [(''msg'', json_a1)]
     = Inr ''http://h:8080?example=1&msg=%7B%22a%22%3A1%7D''
   \<and> resolveUrlWithParameter ''www.example.com'' [(''msg'', json_a1)]
     = Inr ''www.example.com?msg=%7B%22a%22%3A1%7D''"
  by code_simp

text \<open>The three cases of the repository's own test \<open>Test_resolveUrlWithParameter\<close>.\<close>

lemma Test_resolveUrlWithParameter:
  "resolveUrlWithParameter ''http://127.0.0.1:38080'' [(''msg'', json_a1)]
     = Inr ''http://127.0.0.1:38080?msg=%7B%22a%22%3A1%7D''
   \<and> resolveUrlWithParameter ''http://127.0.0.1:38080?example=1'' [(''msg'', json_a1)]
     = Inr ''http://127.0.0.1:38080?example=1&msg=%7B%22a%22%3A1%7D''
   \<and> resolveUrlWithParameter ''www.example.com'' [(''msg'', json_a1)]
     = Inr ''www.example.com?msg=%7B%22a%22%3A1%7D''"
  by code_simp

text \<open>
  Claim C7, as amended.  For a URL that parses and a parameter map (its keys are distinct),
  the resolver returns the URL re-serialized with the query string \<open>Encode q\<close>, where in
  \<open>q\<close> every key of the parameter map has exactly its new value (set, not appended:
  \<open>Encode\<close> writes exactly one pair for that key, so the key is not duplicated), and every
  other key has the values that \<open>url.Query\<close> read from the URL's query string; a pair that
  \<open>url.Query\<close> discards (one with a semicolon or a malformed escape) is not kept.  Reading
  the new query string back gives \<open>q\<close>.
\<close>

theorem resolveUrlWithParameter_sets_keys:
  assumes "url_Parse urlString = Inr u" and "distinct (map fst parameters)"
  shows "\<exists>q. resolveUrlWithParameter urlString parameters = Inr (String (u\<lparr>RawQuery := Encode q\<rparr>))
     \<and> (\<forall>k v. (k, v) \<in> set parameters \<longrightarrow>
            Values_lookup q k = [v] \<and> filter (\<lambda>p. fst p = k) (Encode_pairs q) = [(k, v)])
     \<and> (\<forall>k. k \<notin> fst ` set parameters \<longrightarrow> Values_lookup q k = Values_lookup (Query u) k)
     \<and> (\<forall>k. Values_lookup (Query (u\<lparr>RawQuery := Encode q\<rparr>)) k = Values_lookup q k)"
proof -
  define q where "q = fold (\<lambda>(key, val) q. Values_Set q key val) parameters (Query u)"
  have d: "distinct (map fst q)"
    unfolding q_def Query_def by (intro distinct_fold_Set distinct_parseQuery) simp
  have r: "resolveUrlWithParameter urlString parameters = Inr (String (u\<lparr>RawQuery := Encode q\<rparr>))"
    using assms(1) by (simp add: resolveUrlWithParameter_def q_def)
  have m: "Values_lookup q k = [v] \<and> filter (\<lambda>p. fst p = k) (Encode_pairs q) = [(k, v)]"
    if "(k, v) \<in> set parameters" for k v
  proof -
    have "Values_lookup q k = [v]"
      unfolding q_def using assms(2) that by (rule fold_Set_member)
    then show ?thesis by (simp add: filter_Encode_pairs [OF d])
  qed
  have o: "Values_lookup q k = Values_lookup (Query u) k" if "k \<notin> fst ` set parameters" for k
    unfolding q_def using that by (rule fold_Set_other)
  have b: "Values_lookup (Query (u\<lparr>RawQuery := Encode q\<rparr>)) k = Values_lookup q k" for k
    using Query_Encode [OF d] by (simp add: Query_def)
  from r m o b show ?thesis by blast
qed

theorem resolveUrlWithParameter_sets_keys_witness:
  "url_Parse ''http://h:8080?a=1&a=2&b=3'' = Inr url_repeated
   \<and> distinct (map fst [(''a'', ''9''), (''c'', ''4'')])
   \<and> Values_lookup (Query url_repeated) ''a'' = [''1'', ''2'']
   \<and> (\<exists>q. resolveUrlWithParameter ''http://h:8080?a=1&a=2&b=3'' [(''a'', ''9''), (''c'', ''4'')]
            = Inr (String (url_repeated\<lparr>RawQuery := Encode q\<rparr>))
          \<and> Values_lookup q ''a'' = [''9'']
          \<and> filter (\<lambda>p. fst p = ''a'') (Encode_pairs q) = [(''a'', ''9'')]
          \<and> Values_lookup q ''b'' = [''3''])
   \<and> resolveUrlWithParameter ''http://h:8080?a=1&a=2&b=3'' [(''a'', ''9''), (''c'', ''4'')]
       = Inr ''http://h:8080?a=9&b=3&c=4''"
proof -
  have h1: "url_Parse ''http://h:8080?a=1&a=2&b=3'' = Inr url_repeated"
    by code_simp
  have h2: "distinct (map fst [(''a'', ''9''), (''c'', ''4'')])"
    by simp
  have a: "Values_lookup (Query url_repeated) ''a'' = [''1'', ''2'']"
    by code_simp
  have b: "Values_lookup (Query url_repeated) ''b'' = [''3'']"
    by code_simp
  have r: "resolveUrlWithParameter ''http://h:8080?a=1&a=2&b=3'' [(''a'', ''9''), (''c'', ''4'')]
       = Inr ''http://h:8080?a=9&b=3&c=4''"
    by code_simp
  have ma: "(''a'', ''9'') \<in> set [(''a'', ''9''), (''c'', ''4'')]"
    by simp
  have nb: "''b'' \<notin> fst ` set [(''a'', ''9''), (''c'', ''4'')]"
    by simp
  from resolveUrlWithParameter_sets_keys [OF h1 h2] obtain q where
    q: "resolveUrlWithParameter ''http://h:8080?a=1&a=2&b=3'' [(''a'', ''9''), (''c'', ''4'')]
            = Inr (String (url_repeated\<lparr>RawQuery := Encode q\<rparr>))"
       "\<forall>k v. (k, v) \<in> set [(''a'', ''9''), (''c'', ''4'')] \<longrightarrow>
            Values_lookup q k = [v] \<and> filter (\<lambda>p. fst p = k) (Encode_pairs q) = [(k, v)]"
       "\<forall>k. k \<notin> fst ` set [(''a'', ''9''), (''c'', ''4'')] \<longrightarrow>
            Values_lookup q k = Values_lookup (Query url_repeated) k"
    by blast
  from q(2) ma have "Values_lookup q ''a'' = [''9'']"
    and "filter (\<lambda>p. fst p = ''a'') (Encode_pairs q) = [(''a'', ''9'')]"
    by blast+
  moreover from q(3) nb b have "Values_lookup q ''b'' = [''3'']" by simp
  ultimately show ?thesis using h1 h2 a r q(1) by blast
qed

text \<open>
  Claim C7, as stated, fails: the URL \<open>http://h?b=2;c=3\<close> parses, its query holds the key
  \<open>b\<close>, and \<open>b\<close> is not a key of the parameter map \<open>{e: 5}\<close>; yet the resolver returns
  \<open>http://h?e=5\<close>, where \<open>b\<close> has lost its value.  \<open>url.Query\<close> discarded the pair for
  its semicolon.
\<close>

theorem resolveUrlWithParameter_loses_discarded_pair:
  "url_Parse ''http://h?b=2;c=3''
     = Inr (new_URL\<lparr>Scheme := ''http'', Host := ''h'', RawQuery := ''b=2;c=3''\<rparr>)
   \<and> resolveUrlWithParameter ''http://h?b=2;c=3'' [(''e'', ''5'')] = Inr ''http://h?e=5''"
  by code_simp

end
